theory Spec2Isabelle
  imports Complex_Main "HOL-Library.Sublist"
begin

section \<open>Common notions\<close>

text \<open>
  A JavaScript exception is a value. Functions of the pages that can throw return
  \<open>exn + 'a\<close>, with \<open>Inl\<close> for the exception.
\<close>

datatype exn = Thrown string

text \<open>
  \<open>Math.random\<close> is an input of the model: a handler invocation receives the random state
  \<open>'r\<close> it starts from, and every library generator maps a random state to its result
  and the next random state.
\<close>

section \<open>Phone-number generator page\<close>

subsection \<open>Country data and the number generator of lib/phoneData\<close>

text \<open>
  Modelled from the spec: the type \<open>CountryData\<close> of lib/phoneData, which is not among the
  sources. The spec lists code, display name, dialing prefix and phone-format template; the
  page reads \<open>id\<close>, \<open>name\<close> and \<open>code\<close>. The template is the pattern of digit
  groups: a sequence of slots, each a digit to be filled or a literal character.
\<close>

datatype slot = Placeholder | Literal char

record CountryData =
  country_id :: string
  country_name :: string
  dial_code :: string
  format :: "slot list"

definition digit_char :: "nat \<Rightarrow> char" where
  "digit_char d = ''0123456789'' ! (d mod 10)"

definition is_digit :: "char \<Rightarrow> bool" where
  "is_digit c = (c \<in> set ''0123456789'')"

text \<open>
  Modelled from the spec: digit-filling of lib/phoneData, which is not among the sources
  (``randomized digit-filling into the country's template''). \<open>rnd k\<close> is the \<open>k\<close>-th
  random draw; the position \<open>k\<close> is the random state.
\<close>

fun fill_template :: "(nat \<Rightarrow> nat) \<Rightarrow> slot list \<Rightarrow> nat \<Rightarrow> string \<times> nat" where
  "fill_template rnd [] k = ([], k)"
| "fill_template rnd (Placeholder # t) k =
     (case fill_template rnd t (Suc k) of (s, k') \<Rightarrow> (digit_char (rnd k) # s, k'))"
| "fill_template rnd (Literal c # t) k =
     (case fill_template rnd t k of (s, k') \<Rightarrow> (c # s, k'))"

fun fill_many :: "(nat \<Rightarrow> nat) \<Rightarrow> slot list \<Rightarrow> nat \<Rightarrow> nat \<Rightarrow> string list \<times> nat" where
  "fill_many rnd tmpl 0 k = ([], k)"
| "fill_many rnd tmpl (Suc n) k =
     (case fill_template rnd tmpl k of
        (s, k1) \<Rightarrow> (case fill_many rnd tmpl n k1 of (ss, k2) \<Rightarrow> (s # ss, k2)))"

text \<open>
  Modelled from the spec: \<open>generatePhoneNumber(country, count)\<close> of lib/phoneData, which is
  not among the sources (``given a country and a requested count, produces that many
  formatted numbers by repeated randomized digit-filling into the country's template'').
  It never throws.
\<close>

definition generatePhoneNumber ::
  "(nat \<Rightarrow> nat) \<Rightarrow> CountryData \<Rightarrow> int \<Rightarrow> nat \<Rightarrow> exn + (string list \<times> nat)" where
  "generatePhoneNumber rnd country n k = Inr (fill_many rnd (format country) (nat n) k)"

text \<open>A string matches a template: slot by slot, a digit for a placeholder, the literal itself.\<close>

definition slot_ok :: "slot \<Rightarrow> char \<Rightarrow> bool" where
  "slot_ok sl c = (case sl of Placeholder \<Rightarrow> is_digit c | Literal l \<Rightarrow> c = l)"

definition matches_template :: "slot list \<Rightarrow> string \<Rightarrow> bool" where
  "matches_template tmpl s = list_all2 slot_ok tmpl s"

subsection \<open>parseInt with radix 10\<close>

text \<open>
  \<open>parseInt(str, 10)\<close>: leading white space is skipped, one sign is read, then the longest
  run of decimal digits; no digit gives \<open>NaN\<close>, here \<open>None\<close>. The value is an unbounded
  integer: JavaScript rounds a long digit string to a double, and rounding is monotone, so
  the comparisons of the page with \<open>0\<close> and \<open>10000\<close> have the same outcome.
\<close>

definition isStrWhiteSpaceChar :: "char \<Rightarrow> bool" where
  "isStrWhiteSpaceChar c =
     (c \<in> set [CHR 0x09, CHR 0x0A, CHR 0x0B, CHR 0x0C, CHR 0x0D, CHR 0x20])"

definition digit_val :: "char \<Rightarrow> nat" where
  "digit_val c = of_char c - 48"

definition digits_value :: "string \<Rightarrow> nat" where
  "digits_value ds = foldl (\<lambda>a c. 10 * a + digit_val c) 0 ds"

definition parseInt10 :: "string \<Rightarrow> int option" where
  "parseInt10 str =
     (let s = dropWhile isStrWhiteSpaceChar str;
          neg = (case s of [] \<Rightarrow> False | c # t \<Rightarrow> c = CHR ''-'');
          s' = (case s of [] \<Rightarrow> []
                | c # t \<Rightarrow> if c = CHR ''-'' \<or> c = CHR ''+'' then t else s);
          ds = takeWhile is_digit s'
      in if ds = [] then None
         else Some ((if neg then - 1 else 1) * int (digits_value ds)))"

text \<open>\<open>val > 0 && val <= 10000\<close>: every comparison with \<open>NaN\<close> is false.\<close>

definition count_in_range :: "int option \<Rightarrow> bool" where
  "count_in_range v = (case v of None \<Rightarrow> False | Some n \<Rightarrow> 0 < n \<and> n \<le> 10000)"

text \<open>\<open>Number.prototype.toString\<close> on an integer: its decimal digits.\<close>

function toString_nat :: "nat \<Rightarrow> string" where
  "toString_nat n =
     (if n < 10 then [digit_char n] else toString_nat (n div 10) @ [digit_char (n mod 10)])"
  by pat_completeness auto
termination
  by (relation "measure id") auto

declare toString_nat.simps [simp del]

definition toString_int :: "int \<Rightarrow> string" where
  "toString_int n = (if n < 0 then CHR ''-'' # toString_nat (nat (- n)) else toString_nat (nat n))"

subsection \<open>Page state\<close>

text \<open>
  The state of \<open>PhoneGeneratorPage\<close>. \<open>pending\<close> is the queue of \<open>setTimeout\<close> callbacks of
  \<open>handleGenerate\<close> that have not run yet, each with the \<open>selectedCountry\<close> and \<open>count\<close> its
  closure captured. \<open>storage\<close> is local storage.
\<close>

record PhoneState =
  selectedCountry :: "CountryData option"
  generatedNumbers :: "string list"
  count :: int
  page :: nat
  isGenerating :: bool
  pending :: "(CountryData \<times> int) list"
  storage :: "string \<rightharpoonup> string"

definition STORAGE_KEY_COUNTRY :: string where
  "STORAGE_KEY_COUNTRY = ''phone_generator_selected_country''"

definition STORAGE_KEY_COUNT :: string where
  "STORAGE_KEY_COUNT = ''phone_generator_count''"

text \<open>The \<open>useState\<close> initial values.\<close>

definition phone_init :: "(string \<rightharpoonup> string) \<Rightarrow> PhoneState" where
  "phone_init st =
     \<lparr>selectedCountry = None, generatedNumbers = [], count = 10, page = 0,
      isGenerating = False, pending = [], storage = st\<rparr>"

text \<open>\<open>countries[0]\<close>: \<open>undefined\<close> on an empty table, which the state holds as no country.\<close>

definition first_country :: "CountryData list \<Rightarrow> CountryData option" where
  "first_country countries = (case countries of [] \<Rightarrow> None | c # _ \<Rightarrow> Some c)"

text \<open>
  The settings-load effect. \<open>storage_ok\<close> is false when \<open>localStorage.getItem\<close> throws;
  the \<open>catch\<close> then selects the first country and leaves the count alone.
\<close>

definition load_settings :: "CountryData list \<Rightarrow> bool \<Rightarrow> PhoneState \<Rightarrow> PhoneState" where
  "load_settings countries storage_ok s =
     (if \<not> storage_ok then s\<lparr>selectedCountry := first_country countries\<rparr>
      else
        let savedCountryId = storage s STORAGE_KEY_COUNTRY;
            savedCount = storage s STORAGE_KEY_COUNT;
            s1 = (case savedCountryId of
                    None \<Rightarrow> s\<lparr>selectedCountry := first_country countries\<rparr>
                  | Some i \<Rightarrow>
                      if i = [] then s\<lparr>selectedCountry := first_country countries\<rparr>
                      else (case find (\<lambda>c. country_id c = i) countries of
                              Some country \<Rightarrow> s\<lparr>selectedCountry := Some country\<rparr>
                            | None \<Rightarrow> s\<lparr>selectedCountry := first_country countries\<rparr>))
        in (case savedCount of
              None \<Rightarrow> s1
            | Some txt \<Rightarrow>
                if txt = [] then s1
                else (case parseInt10 txt of
                        None \<Rightarrow> s1
                      | Some parsedCount \<Rightarrow>
                          if 0 < parsedCount \<and> parsedCount \<le> 10000
                          then s1\<lparr>count := parsedCount\<rparr> else s1)))"

text \<open>The \<open>onChange\<close> handler of the count input.\<close>

definition count_onChange :: "string \<Rightarrow> PhoneState \<Rightarrow> PhoneState" where
  "count_onChange txt s =
     (case parseInt10 txt of
        None \<Rightarrow> s
      | Some val \<Rightarrow> if 0 < val \<and> val \<le> 10000 then s\<lparr>count := val\<rparr> else s)"

text \<open>\<open>handleSelectCountry\<close>; a failing \<open>setItem\<close> is caught and logged.\<close>

definition handleSelectCountry :: "bool \<Rightarrow> CountryData \<Rightarrow> PhoneState \<Rightarrow> PhoneState" where
  "handleSelectCountry storage_ok country s =
     (let s1 = s\<lparr>selectedCountry := Some country, generatedNumbers := [], page := 0\<rparr>
      in if storage_ok
         then s1\<lparr>storage := (storage s1)(STORAGE_KEY_COUNTRY \<mapsto> country_id country)\<rparr>
         else s1)"

subsection \<open>handleGenerate\<close>

definition batchSize :: int where
  "batchSize = 1000"

text \<open>\<open>Math.ceil(count / batchSize)\<close>.\<close>

definition batches_of :: "int \<Rightarrow> int" where
  "batches_of n = \<lceil>real_of_int n / real_of_int batchSize\<rceil>"

text \<open>
  The \<open>for\<close> loop over the batches. \<open>gen\<close> is \<open>generatePhoneNumber\<close>; an exception of a
  batch leaves the loop.
\<close>

function batch_loop ::
  "(CountryData \<Rightarrow> int \<Rightarrow> 'r \<Rightarrow> exn + (string list \<times> 'r)) \<Rightarrow> CountryData \<Rightarrow> int \<Rightarrow> int \<Rightarrow>
   int \<Rightarrow> string list \<Rightarrow> 'r \<Rightarrow> exn + (string list \<times> 'r)" where
  "batch_loop gen country n batches i allNumbers r =
     (if i < batches then
        (let currentBatchSize = min batchSize (n - i * batchSize)
         in case gen country currentBatchSize r of
              Inl e \<Rightarrow> Inl e
            | Inr (batchNumbers, r') \<Rightarrow>
                batch_loop gen country n batches (i + 1) (allNumbers @ batchNumbers) r')
      else Inr (allNumbers, r))"
  by pat_completeness auto
termination
  by (relation "measure (\<lambda>(gen, country, n, batches, i, allNumbers, r). nat (batches - i))") auto

declare batch_loop.simps [simp del]

text \<open>The body of the outer \<open>try\<close> up to the state update: the list to be displayed.\<close>

definition generate_numbers ::
  "(CountryData \<Rightarrow> int \<Rightarrow> 'r \<Rightarrow> exn + (string list \<times> 'r)) \<Rightarrow> CountryData \<Rightarrow> int \<Rightarrow> 'r \<Rightarrow>
   exn + (string list \<times> 'r)" where
  "generate_numbers gen country n r =
     (if n \<le> 2000 then gen country n r
      else batch_loop gen country n (batches_of n) 0 [] r)"

text \<open>
  The synchronous part of \<open>handleGenerate\<close>: nothing without a country; otherwise the flag
  is raised, the page reset and the callback queued with the values of its closure.
\<close>

definition handleGenerate :: "PhoneState \<Rightarrow> PhoneState" where
  "handleGenerate s =
     (case selectedCountry s of
        None \<Rightarrow> s
      | Some country \<Rightarrow>
          s\<lparr>isGenerating := True, page := 0, pending := pending s @ [(country, count s)]\<rparr>)"

text \<open>
  The callback that \<open>setTimeout\<close> runs, for the closure values \<open>country\<close> and \<open>n\<close>. An
  exception of the generation is caught and logged; a failing \<open>setItem\<close> is caught by the
  inner \<open>try\<close>; \<open>finally\<close> lowers the flag.
\<close>

definition handleGenerate_timeout ::
  "(CountryData \<Rightarrow> int \<Rightarrow> 'r \<Rightarrow> exn + (string list \<times> 'r)) \<Rightarrow> bool \<Rightarrow> CountryData \<Rightarrow> int \<Rightarrow>
   'r \<Rightarrow> PhoneState \<Rightarrow> PhoneState" where
  "handleGenerate_timeout gen storage_ok country n r s =
     (case generate_numbers gen country n r of
        Inl e \<Rightarrow> s\<lparr>isGenerating := False\<rparr>
      | Inr (numbers, r') \<Rightarrow>
          (let s1 = s\<lparr>generatedNumbers := numbers\<rparr>;
               s2 = (if storage_ok
                     then s1\<lparr>storage := (storage s1)(STORAGE_KEY_COUNT \<mapsto> toString_int n)\<rparr>
                     else s1)
           in s2\<lparr>isGenerating := False\<rparr>))"

text \<open>The first queued callback runs.\<close>

definition run_pending ::
  "(CountryData \<Rightarrow> int \<Rightarrow> 'r \<Rightarrow> exn + (string list \<times> 'r)) \<Rightarrow> bool \<Rightarrow> 'r \<Rightarrow> PhoneState \<Rightarrow>
   PhoneState" where
  "run_pending gen storage_ok r s =
     (case pending s of
        [] \<Rightarrow> s
      | (country, n) # rest \<Rightarrow>
          handleGenerate_timeout gen storage_ok country n r (s\<lparr>pending := rest\<rparr>))"

text \<open>
  The states of the page: the initial render, then any sequence of the effect and the
  handlers. The generate button is disabled while \<open>isGenerating\<close> holds.
\<close>

inductive phone_reachable ::
  "(CountryData \<Rightarrow> int \<Rightarrow> 'r \<Rightarrow> exn + (string list \<times> 'r)) \<Rightarrow> CountryData list \<Rightarrow> PhoneState \<Rightarrow>
   bool" for gen :: "CountryData \<Rightarrow> int \<Rightarrow> 'r \<Rightarrow> exn + (string list \<times> 'r)"
  and countries :: "CountryData list" where
  reach_init: "phone_reachable gen countries (phone_init st)"
| reach_load: "phone_reachable gen countries s \<Longrightarrow>
     phone_reachable gen countries (load_settings countries storage_ok s)"
| reach_select: "phone_reachable gen countries s \<Longrightarrow> country \<in> set countries \<Longrightarrow>
     phone_reachable gen countries (handleSelectCountry storage_ok country s)"
| reach_typed: "phone_reachable gen countries s \<Longrightarrow>
     phone_reachable gen countries (count_onChange txt s)"
| reach_click: "phone_reachable gen countries s \<Longrightarrow> \<not> isGenerating s \<Longrightarrow>
     phone_reachable gen countries (handleGenerate s)"
| reach_timeout: "phone_reachable gen countries s \<Longrightarrow>
     phone_reachable gen countries (run_pending gen storage_ok r s)"

subsection \<open>The batches, one by one\<close>

text \<open>
  The sizes the loop asks for, \<open>Math.min(batchSize, count - i * batchSize)\<close> for
  \<open>i = 0, ..., batches - 1\<close>, and the generator run on a list of sizes, keeping the batches
  apart. The loop is compared with these below.
\<close>

text \<open>
  What the page expects of \<open>generatePhoneNumber\<close> for a country: asked for \<open>m\<close> numbers,
  it returns \<open>m\<close> numbers and does not throw.
\<close>

definition returns_requested ::
  "(CountryData \<Rightarrow> int \<Rightarrow> 'r \<Rightarrow> exn + (string list \<times> 'r)) \<Rightarrow> CountryData \<Rightarrow> bool" where
  "returns_requested gen country =
     (\<forall>m r. \<exists>xs r'. gen country m r = Inr (xs, r') \<and> length xs = nat m)"

definition batch_sizes :: "int \<Rightarrow> int list" where
  "batch_sizes n = map (\<lambda>i. min batchSize (n - i * batchSize)) [0..batches_of n - 1]"

fun gen_batches ::
  "(CountryData \<Rightarrow> int \<Rightarrow> 'r \<Rightarrow> exn + (string list \<times> 'r)) \<Rightarrow> CountryData \<Rightarrow> int list \<Rightarrow> 'r \<Rightarrow>
   exn + (string list list \<times> 'r)" where
  "gen_batches gen country [] r = Inr ([], r)"
| "gen_batches gen country (m # ms) r =
     (case gen country m r of
        Inl e \<Rightarrow> Inl e
      | Inr (b, r1) \<Rightarrow>
          (case gen_batches gen country ms r1 of
             Inl e \<Rightarrow> Inl e
           | Inr (bs, r2) \<Rightarrow> Inr (b # bs, r2)))"

section \<open>Identity generator page\<close>

subsection \<open>Data and the generators of lib/generator\<close>

text \<open>
  Modelled from the spec: the type \<open>CountryConfig\<close> of lib/countryData, which is not among
  the sources (code, display name, dialing prefix, phone-format template). The page reads
  \<open>code\<close> and \<open>name\<close>.
\<close>

record CountryConfig =
  config_code :: string
  config_name :: string
  config_prefix :: string
  config_format :: string

record UserInfo =
  firstName :: string
  lastName :: string
  birthday :: string
  phone :: string
  password :: string
  email :: string

record IpInfo =
  ip :: string
  country :: string

text \<open>
  The functions imported from lib/generator are parameters of the page: each maps its
  arguments and a random state to an exception or to its result and the next random state.
  The third argument of \<open>generateEmail\<close> is the custom domain, \<open>None\<close> for \<open>undefined\<close>.
\<close>

record 'r generators =
  generateName :: "string \<Rightarrow> 'r \<Rightarrow> exn + ((string \<times> string) \<times> 'r)"
  generateBirthday :: "'r \<Rightarrow> exn + (string \<times> 'r)"
  generatePhone :: "CountryConfig \<Rightarrow> 'r \<Rightarrow> exn + (string \<times> 'r)"
  generatePassword :: "'r \<Rightarrow> exn + (string \<times> 'r)"
  generateEmail :: "string \<Rightarrow> string \<Rightarrow> string option \<Rightarrow> 'r \<Rightarrow> exn + (string \<times> 'r)"
  getCountryConfig :: "string \<Rightarrow> CountryConfig option"

subsection \<open>Page state\<close>

text \<open>
  The state of \<open>HomePage\<close>. \<open>copyTimer\<close> is the time, in milliseconds, at which the
  pending timeout of \<open>copyTimerRef\<close> fires, if one is pending. \<open>home_pending\<close> is the queue
  of \<open>setTimeout\<close> callbacks of \<open>generate\<close>, each with the \<open>selectedCountry\<close> and
  \<open>selectedDomain\<close> its closure captured.
\<close>

record HomeState =
  home_selectedCountry :: CountryConfig
  selectedDomain :: string
  userInfo :: UserInfo
  ipInfo :: IpInfo
  copiedField :: "string option"
  copyTimer :: "nat option"
  home_isGenerating :: bool
  home_pending :: "(CountryConfig \<times> string) list"

text \<open>
  \<open>selectedDomain === 'random' ? undefined : selectedDomain\<close>, the custom domain handed to
  \<open>generateEmail\<close>.
\<close>

definition customDomain :: "string \<Rightarrow> string option" where
  "customDomain domain = (if domain = ''random'' then None else Some domain)"

text \<open>
  The five generator calls that build a record, in the order of the source. They stand in
  the \<open>try\<close> of \<open>generate\<close> with the selected country and in \<open>detectIP\<close> with the
  detected one; the first exception ends them.
\<close>

definition generate_try ::
  "'r generators \<Rightarrow> CountryConfig \<Rightarrow> string option \<Rightarrow> 'r \<Rightarrow> exn + UserInfo" where
  "generate_try G cfg custom r0 =
     (case generateName G (config_code cfg) r0 of
        Inl e \<Rightarrow> Inl e
      | Inr ((first_name, last_name), r1) \<Rightarrow>
     (case generateBirthday G r1 of
        Inl e \<Rightarrow> Inl e
      | Inr (b, r2) \<Rightarrow>
     (case generatePhone G cfg r2 of
        Inl e \<Rightarrow> Inl e
      | Inr (p, r3) \<Rightarrow>
     (case generatePassword G r3 of
        Inl e \<Rightarrow> Inl e
      | Inr (pw, r4) \<Rightarrow>
     (case generateEmail G first_name last_name custom r4 of
        Inl e \<Rightarrow> Inl e
      | Inr (em, r5) \<Rightarrow>
          Inr \<lparr>firstName = first_name, lastName = last_name, birthday = b, phone = p, password = pw,
               email = em\<rparr>)))))"

text \<open>
  A record is made of generated values: its six fields are the results of the five calls,
  each call starting from the random state the one before left.
\<close>

definition generated_record ::
  "'r generators \<Rightarrow> CountryConfig \<Rightarrow> string option \<Rightarrow> 'r \<Rightarrow> UserInfo \<Rightarrow> bool" where
  "generated_record G cfg custom r u =
     (\<exists>first_name last_name b p pw em r1 r2 r3 r4 r5.
        generateName G (config_code cfg) r = Inr ((first_name, last_name), r1)
        \<and> generateBirthday G r1 = Inr (b, r2)
        \<and> generatePhone G cfg r2 = Inr (p, r3)
        \<and> generatePassword G r3 = Inr (pw, r4)
        \<and> generateEmail G first_name last_name custom r4 = Inr (em, r5)
        \<and> u = \<lparr>firstName = first_name, lastName = last_name, birthday = b, phone = p,
                password = pw, email = em\<rparr>)"

text \<open>
  The initial render: \<open>countries[0]\<close> is read, so an empty table throws; the first record is
  generated with no custom domain.
\<close>

definition home_init :: "'r generators \<Rightarrow> CountryConfig list \<Rightarrow> 'r \<Rightarrow> exn + HomeState" where
  "home_init G countries r =
     (case countries of
        [] \<Rightarrow> Inl (Thrown ''TypeError'')
      | c0 # _ \<Rightarrow>
          (case generate_try G c0 None r of
             Inl e \<Rightarrow> Inl e
           | Inr u \<Rightarrow>
               Inr \<lparr>home_selectedCountry = c0, selectedDomain = ''random'', userInfo = u,
                    ipInfo = \<lparr>ip = ''...'', country = ''US''\<rparr>, copiedField = None,
                    copyTimer = None, home_isGenerating = False, home_pending = []\<rparr>))"

subsection \<open>generate\<close>

text \<open>The synchronous part of \<open>generate\<close>, and the callback for the closure values.\<close>

definition generate :: "HomeState \<Rightarrow> HomeState" where
  "generate s =
     s\<lparr>home_isGenerating := True, copiedField := None,
       home_pending := home_pending s @ [(home_selectedCountry s, selectedDomain s)]\<rparr>"

definition generate_timeout ::
  "'r generators \<Rightarrow> CountryConfig \<Rightarrow> string \<Rightarrow> 'r \<Rightarrow> HomeState \<Rightarrow> HomeState" where
  "generate_timeout G cfg domain r s =
     (case generate_try G cfg (customDomain domain) r of
        Inl e \<Rightarrow> s\<lparr>home_isGenerating := False\<rparr>
      | Inr u \<Rightarrow> s\<lparr>userInfo := u, home_isGenerating := False\<rparr>)"

text \<open>The first queued callback of \<open>generate\<close> runs.\<close>

definition home_run_pending :: "'r generators \<Rightarrow> 'r \<Rightarrow> HomeState \<Rightarrow> HomeState" where
  "home_run_pending G r s =
     (case home_pending s of
        [] \<Rightarrow> s
      | (cfg, domain) # rest \<Rightarrow> generate_timeout G cfg domain r (s\<lparr>home_pending := rest\<rparr>))"

text \<open>
  The effect on \<open>selectedCountry.code\<close>: after the first render and after every change of
  the code, \<open>generate\<close> of that render is called if the record has a first name.
\<close>

definition country_code_effect :: "HomeState \<Rightarrow> HomeState" where
  "country_code_effect s = (if firstName (userInfo s) \<noteq> [] then generate s else s)"

definition handleCountrySelect :: "CountryConfig \<Rightarrow> HomeState \<Rightarrow> HomeState" where
  "handleCountrySelect cfg s = s\<lparr>home_selectedCountry := cfg\<rparr>"

definition handleDomainSelect :: "string \<Rightarrow> HomeState \<Rightarrow> HomeState" where
  "handleDomainSelect domain s = s\<lparr>selectedDomain := domain\<rparr>"

subsection \<open>detectIP\<close>

text \<open>
  The decoded response of \<open>/api/ip-info\<close>, \<open>{ip, country, accurate}\<close>; a field that is
  absent is \<open>None\<close>.
\<close>

record IpData =
  data_ip :: "string option"
  data_country :: "string option"
  data_accurate :: bool

text \<open>The placeholder of the source, two CJK characters, as its UTF-8 bytes.\<close>

definition unknown_ip :: string where
  "unknown_ip = [CHR 0xE6, CHR 0x9C, CHR 0xAA, CHR 0xE7, CHR 0x9F, CHR 0xA5]"

definition fallback_ipInfo :: IpInfo where
  "fallback_ipInfo = \<lparr>ip = unknown_ip, country = ''US''\<rparr>"

text \<open>\<open>v || d\<close> on a string that may be absent: an absent or empty string is falsy.\<close>

definition or_default :: "string option \<Rightarrow> string \<Rightarrow> string" where
  "or_default v d = (case v of None \<Rightarrow> d | Some x \<Rightarrow> if x = [] then d else x)"

text \<open>
  \<open>detectIP\<close>, from the point where the awaited fetch and decode have settled: \<open>response\<close>
  is \<open>Inl\<close> when either threw. \<open>isMounted\<close> is the flag of the effect at that moment and
  \<open>domain\<close> the \<open>selectedDomain\<close> of the closure. An exception of a generator lands in the
  same \<open>catch\<close> as a failed fetch, after the earlier state updates of the \<open>try\<close>.
\<close>

definition detectIP ::
  "'r generators \<Rightarrow> exn + IpData \<Rightarrow> bool \<Rightarrow> string \<Rightarrow> 'r \<Rightarrow> HomeState \<Rightarrow> HomeState" where
  "detectIP G response isMounted domain r s =
     (case response of
        Inl e \<Rightarrow> if isMounted then s\<lparr>ipInfo := fallback_ipInfo\<rparr> else s
      | Inr data \<Rightarrow>
          if \<not> isMounted then s
          else
            let s1 = s\<lparr>ipInfo := \<lparr>ip = or_default (data_ip data) unknown_ip,
                                   country = or_default (data_country data) ''US''\<rparr>\<rparr>
            in (case data_country data of
                  None \<Rightarrow> s1
                | Some dc \<Rightarrow>
                    if dc \<noteq> [] \<and> data_accurate data then
                      (case getCountryConfig G dc of
                         None \<Rightarrow> s1
                       | Some detectedCountry \<Rightarrow>
                           let s2 = s1\<lparr>home_selectedCountry := detectedCountry\<rparr>
                           in (case generate_try G detectedCountry (customDomain domain) r of
                                 Inl e \<Rightarrow> s2\<lparr>ipInfo := fallback_ipInfo\<rparr>
                               | Inr u \<Rightarrow> s2\<lparr>userInfo := u\<rparr>))
                    else s1))"

text \<open>
  The effect that calls \<open>detectIP\<close> has an empty dependency list: it is created by the
  first render and by no later one, so the \<open>selectedDomain\<close> its closure reads is the one of
  the first render, whatever the state is when the response arrives.
\<close>

definition detectIP_effect ::
  "'r generators \<Rightarrow> HomeState \<Rightarrow> exn + IpData \<Rightarrow> bool \<Rightarrow> 'r \<Rightarrow> HomeState \<Rightarrow> HomeState" where
  "detectIP_effect G first_render response isMounted r s =
     detectIP G response isMounted (selectedDomain first_render) r s"

subsection \<open>copyToClipboard\<close>

text \<open>
  \<open>copyToClipboard\<close>, from the point where the awaited clipboard write has settled at time
  \<open>now\<close>: on success the pending timeout is cleared, the label is stored and a timeout of
  2000 ms is started; on failure the state is left alone.
\<close>

definition copyToClipboard :: "bool \<Rightarrow> string \<Rightarrow> string \<Rightarrow> nat \<Rightarrow> HomeState \<Rightarrow> HomeState" where
  "copyToClipboard write_ok txt label now s =
     (if write_ok then s\<lparr>copiedField := Some label, copyTimer := Some (now + 2000)\<rparr> else s)"

text \<open>Time passes to \<open>now\<close>: a pending timeout that is due runs \<open>setCopiedField(null)\<close>.\<close>

definition time_passes :: "nat \<Rightarrow> HomeState \<Rightarrow> HomeState" where
  "time_passes now s =
     (case copyTimer s of
        None \<Rightarrow> s
      | Some due \<Rightarrow> if due \<le> now then s\<lparr>copiedField := None, copyTimer := None\<rparr> else s)"

text \<open>The \<open>isCopied\<close> property of a row: \<open>copiedField === label\<close>.\<close>

definition isCopied :: "string \<Rightarrow> HomeState \<Rightarrow> bool" where
  "isCopied label s = (copiedField s = Some label)"

section \<open>Lists with a search box\<close>

subsection \<open>Strings\<close>

text \<open>
  The strings of the lists are sequences of code units of some type \<open>'u\<close> (UTF-16 code
  units in the browser). \<open>toLowerCase\<close> is a builtin of the language and no code of the
  pages: the filters take it as a parameter, any function on strings, and nothing below
  depends on what it does to a letter.
\<close>


subsection \<open>DomainList and MailPage filters\<close>


record 'u TempMail =
  mail_id :: "'u list"
  mail_name :: "'u list"
  description :: "'u list option"
  url :: "'u list"


text \<open>
  The spec's words: an item contains the query as a case-insensitive substring when the
  query, with the case of its letters set aside, stands somewhere in the item, with the
  case of its letters set aside. Setting case aside is what \<open>toLowerCase\<close> does to a
  string.
\<close>

definition contains_ci :: "('u list \<Rightarrow> 'u list) \<Rightarrow> 'u list \<Rightarrow> 'u list \<Rightarrow> bool" where
  "contains_ci toLowerCase item q =
     (\<exists>before after. toLowerCase item = before @ toLowerCase q @ after)"


section \<open>Mailbox directory page\<close>

text \<open>
  The functions imported from lib/mailData are parameters of the page. They work on local
  storage, whose content has the type \<open>'st\<close>: \<open>isFavorite\<close> reads the persisted status of
  an id, \<open>toggleFavorite\<close> returns the new status of an entry and the storage it leaves.
\<close>

record ('u, 'st) mailData =
  isFavorite :: "'u list \<Rightarrow> 'st \<Rightarrow> bool"
  toggleFavorite :: "'u TempMail \<Rightarrow> 'st \<Rightarrow> bool \<times> 'st"

text \<open>
  What the page expects of them (``favorite status persisted as a set of ids in local
  storage, toggled by the user''): a toggle turns the persisted status of its entry into
  the opposite, keeps the status of every other id and returns the new status.
\<close>

definition toggles_status :: "('u, 'st) mailData \<Rightarrow> bool" where
  "toggles_status L =
     (\<forall>mail st.
        fst (toggleFavorite L mail st) = (\<not> isFavorite L (mail_id mail) st)
        \<and> isFavorite L (mail_id mail) (snd (toggleFavorite L mail st))
            = (\<not> isFavorite L (mail_id mail) st)
        \<and> (\<forall>i. i \<noteq> mail_id mail \<longrightarrow>
              isFavorite L i (snd (toggleFavorite L mail st)) = isFavorite L i st))"

text \<open>
  Modelled from the spec: \<open>isFavorite\<close> and \<open>toggleFavorite\<close> of lib/mailData, which is not
  among the sources, over a persisted set of ids. A storage write can fail; the failure is
  caught and is a silent no-op (section 7 of the spec): the set stays as it was and the call
  goes on, returning the status it computed.
\<close>

definition storage_mailData :: "bool \<Rightarrow> ('u, 'u list set) mailData" where
  "storage_mailData write_ok =
     \<lparr>isFavorite = (\<lambda>i ids. i \<in> ids),
      toggleFavorite = (\<lambda>mail ids.
        let newIsFav = mail_id mail \<notin> ids;
            written = (if newIsFav then insert (mail_id mail) ids else ids - {mail_id mail})
        in (newIsFav, if write_ok then written else ids))\<rparr>"

text \<open>The \<open>favorites\<close> state of \<open>MailPage\<close> beside the content of local storage.\<close>

record ('u, 'st) MailState =
  favorites :: "'u list set"
  persisted :: 'st

text \<open>The initial render and the effect that loads the favorites.\<close>

definition mail_init :: "'st \<Rightarrow> ('u, 'st) MailState" where
  "mail_init st = \<lparr>favorites = {}, persisted = st\<rparr>"

definition load_favorites ::
  "('u, 'st) mailData \<Rightarrow> 'u TempMail list \<Rightarrow> ('u, 'st) MailState \<Rightarrow> ('u, 'st) MailState" where
  "load_favorites L tempMailList s =
     s\<lparr>favorites :=
         set (map mail_id
           (filter (\<lambda>mail. isFavorite L (mail_id mail) (persisted s)) tempMailList))\<rparr>"

definition handleToggleFavorite ::
  "('u, 'st) mailData \<Rightarrow> 'u TempMail \<Rightarrow> ('u, 'st) MailState \<Rightarrow> ('u, 'st) MailState" where
  "handleToggleFavorite L mail s =
     (case toggleFavorite L mail (persisted s) of
        (newIsFav, persisted') \<Rightarrow>
          s\<lparr>persisted := persisted',
            favorites := (if newIsFav then insert (mail_id mail) (favorites s)
                          else favorites s - {mail_id mail})\<rparr>)"

text \<open>The \<open>favorites\<close> state and local storage say the same about an entry.\<close>

definition agree_on :: "('u, 'st) mailData \<Rightarrow> 'u TempMail \<Rightarrow> ('u, 'st) MailState \<Rightarrow> bool" where
  "agree_on L mail s =
     ((mail_id mail \<in> favorites s) = isFavorite L (mail_id mail) (persisted s))"

text \<open>The states of the page: the effect has run, then any cards were toggled.\<close>

inductive mail_reachable ::
  "('u, 'st) mailData \<Rightarrow> 'u TempMail list \<Rightarrow> ('u, 'st) MailState \<Rightarrow> bool"
  for L :: "('u, 'st) mailData" and tempMailList :: "'u TempMail list" where
  mail_loaded: "mail_reachable L tempMailList (load_favorites L tempMailList (mail_init st))"
| mail_toggled: "mail_reachable L tempMailList s \<Longrightarrow> mail \<in> set tempMailList \<Longrightarrow>
     mail_reachable L tempMailList (handleToggleFavorite L mail s)"

section \<open>Example instances\<close>

text \<open>Concrete inputs on which the theorems below are evaluated.\<close>

definition example_country :: CountryData where
  "example_country =
     \<lparr>country_id = ''US'', country_name = ''United States'', dial_code = ''+1'',
      format = [Literal (CHR ''+''), Literal (CHR ''1''), Literal (CHR '' ''),
                Placeholder, Placeholder, Placeholder, Literal (CHR ''-''),
                Placeholder, Placeholder, Placeholder, Placeholder]\<rparr>"

definition example_phone_state :: "int \<Rightarrow> PhoneState" where
  "example_phone_state n =
     (phone_init Map.empty)\<lparr>selectedCountry := Some example_country, count := n\<rparr>"

definition example_ready_state :: PhoneState where
  "example_ready_state =
     count_onChange ''2'' (load_settings [example_country] True (phone_init Map.empty))"

definition example_config :: CountryConfig where
  "example_config =
     \<lparr>config_code = ''US'', config_name = ''United States'', config_prefix = ''+1'',
      config_format = ''XXX-XXX-XXXX''\<rparr>"

definition example_generators :: "nat generators" where
  "example_generators =
     \<lparr>generateName = (\<lambda>code r. Inr ((''Ann'', ''Lee''), r + 1)),
      generateBirthday = (\<lambda>r. Inr (''1990-01-01'', r + 1)),
      generatePhone = (\<lambda>cfg r. Inr (''555-0100'', r + 1)),
      generatePassword = (\<lambda>r. Inr (''s3cret'', r + 1)),
      generateEmail = (\<lambda>first_name last_name custom r.
         Inr (first_name @ ''@'' @ (case custom of None \<Rightarrow> ''any.example'' | Some d \<Rightarrow> d),
              r + 1)),
      getCountryConfig = (\<lambda>code. if code = ''US'' then Some example_config else None)\<rparr>"

definition example_failing_generators :: "nat generators" where
  "example_failing_generators =
     example_generators\<lparr>generatePassword := (\<lambda>r. Inl (Thrown ''no entropy''))\<rparr>"

definition example_home_state :: HomeState where
  "example_home_state =
     \<lparr>home_selectedCountry = example_config, selectedDomain = ''random'',
      userInfo = \<lparr>firstName = ''Ann'', lastName = ''Lee'', birthday = ''1990-01-01'',
                  phone = ''555-0100'', password = ''s3cret'', email = ''Ann@any.example''\<rparr>,
      ipInfo = \<lparr>ip = ''...'', country = ''US''\<rparr>, copiedField = None, copyTimer = None,
      home_isGenerating = False, home_pending = []\<rparr>"

definition example_ip_data :: IpData where
  "example_ip_data =
     \<lparr>data_ip = Some ''203.0.113.7'', data_country = Some ''US'', data_accurate = True\<rparr>"

definition example_failing_gen :: "CountryData \<Rightarrow> int \<Rightarrow> nat \<Rightarrow> exn + (string list \<times> nat)" where
  "example_failing_gen c n k =
     (if n < 1000 then Inl (Thrown ''out of digits'') else generatePhoneNumber (\<lambda>k. k) c n k)"

definition example_busy_state :: PhoneState where
  "example_busy_state =
     (phone_init Map.empty)\<lparr>generatedNumbers := [''+1 000-0000''], isGenerating := True\<rparr>"





definition example_mail :: "char TempMail" where
  "example_mail =
     \<lparr>mail_id = ''a'', mail_name = ''Alpha'', description = Some ''Fast inbox'',
      url = ''https://alpha.example''\<rparr>"

section \<open>Properties of the phone-number generator page\<close>

subsection \<open>The batch loop\<close>

lemma batches_of_bounds:
  "(batches_of n - 1) * batchSize < n \<and> n \<le> batches_of n * batchSize"
proof -
  let ?x = "real_of_int n / real_of_int batchSize"
  have pos: "(0::real) < real_of_int batchSize" by (simp add: batchSize_def)
  have "real_of_int \<lceil>?x\<rceil> - 1 < ?x" and "?x \<le> real_of_int \<lceil>?x\<rceil>"
    using ceiling_correct [of ?x] by simp_all
  then have "real_of_int (batches_of n) - 1 < ?x" and "?x \<le> real_of_int (batches_of n)"
    by (simp_all add: batches_of_def)
  then have "(real_of_int (batches_of n) - 1) * real_of_int batchSize < real_of_int n"
    and "real_of_int n \<le> real_of_int (batches_of n) * real_of_int batchSize"
    using pos_less_divide_eq [OF pos] pos_divide_le_eq [OF pos] by blast+
  then have "real_of_int ((batches_of n - 1) * batchSize) < real_of_int n"
    and "real_of_int n \<le> real_of_int (batches_of n * batchSize)"
    by simp_all
  then show ?thesis
    by (simp only: of_int_less_iff of_int_le_iff)
qed

lemma upto_step: "(i::int) < B \<Longrightarrow> [i..B - 1] = i # [i + 1..B - 1]"
  by (subst upto_rec1) simp_all

lemma sum_batch_sizes:
  assumes lo: "(B - 1) * batchSize < n" and hi: "n \<le> B * batchSize"
  shows "0 \<le> i \<Longrightarrow> i < B \<Longrightarrow>
    sum_list (map (\<lambda>j. nat (min batchSize (n - j * batchSize))) [i..B - 1]) = nat (n - i * batchSize)"
proof (induction "nat (B - 1 - i)" arbitrary: i)
  case 0
  then have i: "i = B - 1" by simp
  have "[i..B - 1] = [i]" using i by simp
  moreover have "min batchSize (n - i * batchSize) = n - i * batchSize"
    using hi i by (simp add: batchSize_def algebra_simps)
  ultimately show ?case by simp
next
  case (Suc m)
  then have lt: "i + 1 < B" by linarith
  have m: "m = nat (B - 1 - (i + 1))" using Suc.hyps(2) by linarith
  have ih: "sum_list (map (\<lambda>j. nat (min batchSize (n - j * batchSize))) [i + 1..B - 1])
      = nat (n - (i + 1) * batchSize)"
    using Suc.hyps(1) [OF m] Suc.prems lt by simp
  have big: "(i + 1) * batchSize \<le> n"
  proof -
    have "(i + 1) * batchSize \<le> (B - 1) * batchSize"
      using lt by (simp add: batchSize_def)
    with lo show ?thesis by linarith
  qed
  then have full: "min batchSize (n - i * batchSize) = batchSize"
    by (simp add: batchSize_def algebra_simps)
  have "sum_list (map (\<lambda>j. nat (min batchSize (n - j * batchSize))) [i..B - 1])
      = nat batchSize + nat (n - (i + 1) * batchSize)"
    using ih full Suc.prems by (simp add: upto_step)
  also have "\<dots> = nat (n - i * batchSize)"
    using big by (simp add: batchSize_def algebra_simps)
  finally show ?case .
qed

lemma fill_many_length: "fill_many rnd t n k = (xs, k') \<Longrightarrow> length xs = n"
proof (induction n arbitrary: k xs k')
  case 0
  then show ?case by simp
next
  case (Suc n)
  obtain s k1 where f: "fill_template rnd t k = (s, k1)" by (cases "fill_template rnd t k")
  obtain ss k2 where m: "fill_many rnd t n k1 = (ss, k2)" by (cases "fill_many rnd t n k1")
  from Suc.prems f m have "xs = s # ss" by simp
  moreover from Suc.IH [OF m] have "length ss = n" .
  ultimately show ?case by simp
qed

lemma generatePhoneNumber_length:
  "\<exists>xs k'. generatePhoneNumber rnd c n k = Inr (xs, k') \<and> length xs = nat n"
proof -
  obtain xs k' where f: "fill_many rnd (format c) (nat n) k = (xs, k')"
    by (cases "fill_many rnd (format c) (nat n) k")
  from fill_many_length [OF f] f show ?thesis by (simp add: generatePhoneNumber_def)
qed

lemma batch_loop_gen_batches:
  "batch_loop gen c n B i acc r =
     (case gen_batches gen c (map (\<lambda>j. min batchSize (n - j * batchSize)) [i..B - 1]) r of
        Inl e \<Rightarrow> Inl e
      | Inr (bs, r') \<Rightarrow> Inr (acc @ concat bs, r'))"
proof (induction gen c n B i acc r rule: batch_loop.induct)
  case (1 gen c n B i acc r)
  show ?case
  proof (cases "i < B")
    case False
    then have "[i..B - 1] = []" by simp
    with False show ?thesis by (subst batch_loop.simps) simp
  next
    case True
    note up = upto_step [OF True]
    show ?thesis
    proof (cases "gen c (min batchSize (n - i * batchSize)) r")
      case (Inl e)
      with True show ?thesis by (subst batch_loop.simps) (simp add: up)
    next
      case (Inr p)
      obtain b r1 where p: "p = (b, r1)" by (cases p)
      from "1.IH" [OF True refl] Inr p
      have ih: "batch_loop gen c n B (i + 1) (acc @ b) r1 =
         (case gen_batches gen c (map (\<lambda>j. min batchSize (n - j * batchSize)) [i + 1..B - 1]) r1 of
            Inl e \<Rightarrow> Inl e
          | Inr (bs, r') \<Rightarrow> Inr ((acc @ b) @ concat bs, r'))"
        by simp
      have "batch_loop gen c n B i acc r = batch_loop gen c n B (i + 1) (acc @ b) r1"
        using True Inr p by (subst batch_loop.simps) simp
      with ih show ?thesis
        using Inr p by (simp add: up split: sum.splits prod.splits)
    qed
  qed
qed

lemma generatePhoneNumber_returns_requested: "returns_requested (generatePhoneNumber rnd) c"
  unfolding returns_requested_def using generatePhoneNumber_length by blast

lemma returns_requestedD:
  "returns_requested gen c \<Longrightarrow> \<exists>xs r'. gen c m r = Inr (xs, r') \<and> length xs = nat m"
  unfolding returns_requested_def by blast

lemma gen_batches_lengths:
  assumes "returns_requested gen c"
  shows "\<exists>bs k'. gen_batches gen c ms k = Inr (bs, k') \<and> map length bs = map nat ms"
proof (induction ms arbitrary: k)
  case Nil
  show ?case by simp
next
  case (Cons m ms)
  obtain b k1 where g: "gen c m k = Inr (b, k1)" and lb: "length b = nat m"
    using returns_requestedD [OF assms] by blast
  obtain bs k2 where r: "gen_batches gen c ms k1 = Inr (bs, k2)"
    and lbs: "map length bs = map nat ms"
    using Cons.IH by blast
  have "gen_batches gen c (m # ms) k = Inr (b # bs, k2)"
    using g r by simp
  moreover have "map length (b # bs) = map nat (m # ms)"
    using lb lbs by simp
  ultimately show ?case by blast
qed

lemma batches_of_pos: "1 \<le> n \<Longrightarrow> 1 \<le> batches_of n"
proof -
  assume "1 \<le> n"
  moreover have "n \<le> batches_of n * batchSize" using batches_of_bounds by blast
  ultimately have "0 < batches_of n * 1000" by (simp add: batchSize_def)
  then show ?thesis by simp
qed

lemma length_batch_sizes: "1 \<le> n \<Longrightarrow> int (length (batch_sizes n)) = batches_of n"
  using batches_of_pos [of n] by (simp add: batch_sizes_def)

lemma batch_sizes_le: "m \<in> set (batch_sizes n) \<Longrightarrow> nat m \<le> 1000"
  by (auto simp: batch_sizes_def batchSize_def)

lemma sum_list_batch_sizes: "1 \<le> n \<Longrightarrow> sum_list (map nat (batch_sizes n)) = nat n"
proof -
  assume n: "1 \<le> n"
  have "sum_list (map (\<lambda>j. nat (min batchSize (n - j * batchSize))) [0..batches_of n - 1])
      = nat (n - 0 * batchSize)"
    using batches_of_bounds [of n] batches_of_pos [OF n]
    by (intro sum_batch_sizes) simp_all
  then show ?thesis by (simp add: batch_sizes_def comp_def)
qed

lemma generate_numbers_batched:
  assumes "returns_requested gen c" and "2000 < n"
  shows "\<exists>bs k'. gen_batches gen c (batch_sizes n) k = Inr (bs, k')
     \<and> generate_numbers gen c n k = Inr (concat bs, k')
     \<and> map length bs = map nat (batch_sizes n)"
proof -
  obtain bs k' where g: "gen_batches gen c (batch_sizes n) k = Inr (bs, k')"
    and l: "map length bs = map nat (batch_sizes n)"
    using gen_batches_lengths [OF assms(1)] by blast
  have "generate_numbers gen c n k = batch_loop gen c n (batches_of n) 0 [] k"
    using assms(2) by (simp add: generate_numbers_def)
  also have "\<dots> = Inr (concat bs, k')"
    using g by (simp add: batch_loop_gen_batches batch_sizes_def)
  finally show ?thesis using g l by blast
qed

lemma generate_numbers_length:
  assumes "returns_requested gen c" and "1 \<le> n"
  shows "\<exists>xs k'. generate_numbers gen c n k = Inr (xs, k') \<and> length xs = nat n"
proof (cases "n \<le> 2000")
  case True
  then show ?thesis
    using returns_requestedD [OF assms(1), of n k] by (simp add: generate_numbers_def)
next
  case False
  then obtain bs k' where
    g: "generate_numbers gen c n k = Inr (concat bs, k')"
    and l: "map length bs = map nat (batch_sizes n)"
    using generate_numbers_batched [OF assms(1), of n k] by auto
  have "length (concat bs) = sum_list (map nat (batch_sizes n))"
    using l by (simp add: length_concat)
  with g show ?thesis using sum_list_batch_sizes [OF assms(2)] by simp
qed

lemma reachable_pending:
  "phone_reachable gen countries s \<Longrightarrow>
     (isGenerating s \<or> pending s = []) \<and> length (pending s) \<le> 1"
proof (induction rule: phone_reachable.induct)
  case (reach_init st)
  show ?case by (simp add: phone_init_def)
next
  case (reach_load s storage_ok)
  then show ?case
    by (simp add: load_settings_def Let_def split: option.splits)
next
  case (reach_select s country storage_ok)
  then show ?case by (simp add: handleSelectCountry_def Let_def)
next
  case (reach_typed s input)
  then show ?case by (simp add: count_onChange_def split: option.splits)
next
  case (reach_click s)
  then show ?case by (simp add: handleGenerate_def split: option.splits)
next
  case (reach_timeout s storage_ok r)
  then show ?case
    by (cases "pending s")
       (auto simp: run_pending_def handleGenerate_timeout_def Let_def
          split: sum.splits prod.splits)
qed

lemma reachable_idle_no_pending:
  "phone_reachable gen countries s \<Longrightarrow> \<not> isGenerating s \<Longrightarrow> pending s = []"
  using reachable_pending by blast

lemma run_pending_after_click:
  assumes "selectedCountry s = Some c" and "pending s = []"
  shows "run_pending gen ok r (handleGenerate s)
     = handleGenerate_timeout gen ok c (count s) r
         (s\<lparr>isGenerating := True, page := 0, pending := []\<rparr>)"
  using assms by (simp add: run_pending_def handleGenerate_def)

lemma generatedNumbers_timeout:
  "generate_numbers gen c n r = Inr (xs, r') \<Longrightarrow>
     generatedNumbers (handleGenerate_timeout gen ok c n r s) = xs"
  by (simp add: handleGenerate_timeout_def Let_def)

text \<open>
  C1. Let \<open>generatePhoneNumber\<close> return as many numbers as it is asked for. With a country
  selected, no callback waiting (as in every state in which the button is enabled,
  \<open>reachable_idle_no_pending\<close>) and a count \<open>N\<close> between 1 and 10000, a click on the generate
  button followed by its callback leaves exactly \<open>N\<close> numbers in the list, as many as a
  single call of the generator returns. Above 2000 the list is the concatenation of
  \<open>ceil(N / 1000)\<close> batches, the generator run on the sizes of the loop in order; no batch is
  longer than 1000 and the lengths add up to \<open>N\<close>.
\<close>

theorem handleGenerate_yields_count:
  assumes gen: "returns_requested gen c"
    and sel: "selectedCountry s = Some c" and idle: "pending s = []"
    and lo: "1 \<le> count s" and hi: "count s \<le> 10000"
  shows "length (generatedNumbers (run_pending gen ok k (handleGenerate s))) = nat (count s)
    \<and> (\<exists>single k'. gen c (count s) k = Inr (single, k')
          \<and> length single = length (generatedNumbers (run_pending gen ok k (handleGenerate s))))
    \<and> (2000 < count s \<longrightarrow>
         (\<exists>bs k'. gen_batches gen c (batch_sizes (count s)) k = Inr (bs, k')
            \<and> generatedNumbers (run_pending gen ok k (handleGenerate s)) = concat bs
            \<and> int (length bs) = \<lceil>real_of_int (count s) / 1000\<rceil>
            \<and> (\<forall>b \<in> set bs. length b \<le> 1000)
            \<and> sum_list (map length bs) = nat (count s)))"
    (is "?total \<and> ?single \<and> ?batched")
proof -
  let ?s' = "run_pending gen ok k (handleGenerate s)"
  note run = run_pending_after_click [OF sel idle, of gen ok k]
  obtain xs k1 where g: "generate_numbers gen c (count s) k = Inr (xs, k1)"
    and lx: "length xs = nat (count s)"
    using generate_numbers_length [OF gen lo] by blast
  have nums: "generatedNumbers ?s' = xs"
    unfolding run by (rule generatedNumbers_timeout [OF g])
  have total: ?total using nums lx by simp
  have single: ?single
    using returns_requestedD [OF gen, of "count s" k] total by auto
  have batched: ?batched
  proof
    assume big: "2000 < count s"
    obtain bs k' where b: "gen_batches gen c (batch_sizes (count s)) k = Inr (bs, k')"
      and gb: "generate_numbers gen c (count s) k = Inr (concat bs, k')"
      and l: "map length bs = map nat (batch_sizes (count s))"
      using generate_numbers_batched [OF gen big] by blast
    have "generatedNumbers ?s' = concat bs"
      unfolding run by (rule generatedNumbers_timeout [OF gb])
    moreover have "int (length bs) = \<lceil>real_of_int (count s) / 1000\<rceil>"
    proof -
      have "length bs = length (batch_sizes (count s))"
        using l by (metis length_map)
      then show ?thesis
        using length_batch_sizes [OF lo] by (simp add: batches_of_def batchSize_def)
    qed
    moreover have "\<forall>b \<in> set bs. length b \<le> 1000"
    proof
      fix b assume "b \<in> set bs"
      then have "length b \<in> set (map length bs)" by simp
      then obtain m where "m \<in> set (batch_sizes (count s))" and "length b = nat m"
        unfolding l by auto
      then show "length b \<le> 1000" using batch_sizes_le by simp
    qed
    moreover have "sum_list (map length bs) = nat (count s)"
      unfolding l by (rule sum_list_batch_sizes [OF lo])
    ultimately show "\<exists>bs k'. gen_batches gen c (batch_sizes (count s)) k = Inr (bs, k')
            \<and> generatedNumbers ?s' = concat bs
            \<and> int (length bs) = \<lceil>real_of_int (count s) / 1000\<rceil>
            \<and> (\<forall>b \<in> set bs. length b \<le> 1000)
            \<and> sum_list (map length bs) = nat (count s)"
      using b by blast
  qed
  from total single batched show ?thesis by blast
qed

theorem handleGenerate_yields_count_witness:
  "returns_requested (generatePhoneNumber (\<lambda>k. k)) example_country
   \<and> length (generatedNumbers
      (run_pending (generatePhoneNumber (\<lambda>k. k)) True 0
         (handleGenerate (example_phone_state 2500)))) = 2500
   \<and> batch_sizes 2500 = [1000, 1000, 500]"
proof -
  have gen: "returns_requested (generatePhoneNumber (\<lambda>k. k)) example_country"
    by (rule generatePhoneNumber_returns_requested)
  have sel: "selectedCountry (example_phone_state 2500) = Some example_country"
    and idle: "pending (example_phone_state 2500) = []"
    and lo: "1 \<le> count (example_phone_state 2500)"
    and hi: "count (example_phone_state 2500) \<le> 10000"
    and n: "count (example_phone_state 2500) = 2500"
    by (simp_all add: example_phone_state_def phone_init_def)
  have "batches_of 2500 = 3" by (simp add: batches_of_def batchSize_def)
  then have "batch_sizes 2500 = [1000, 1000, 500]"
    by (simp add: batch_sizes_def batchSize_def upto_rec1)
  with handleGenerate_yields_count [OF gen sel idle lo hi, of True 0] n gen
  show ?thesis by simp
qed

subsection \<open>Template matching\<close>

lemma is_digit_digit_char: "is_digit (digit_char d)"
proof -
  have "d mod 10 < length ''0123456789''" by simp
  then have "''0123456789'' ! (d mod 10) \<in> set ''0123456789''" by (rule nth_mem)
  then show ?thesis by (simp only: is_digit_def digit_char_def)
qed

lemma fill_template_matches:
  "fill_template rnd t k = (s, k') \<Longrightarrow> matches_template t s"
proof (induction t arbitrary: k s k')
  case Nil
  then show ?case by (simp add: matches_template_def)
next
  case (Cons sl t)
  show ?case
  proof (cases sl)
    case Placeholder
    obtain s1 k1 where r: "fill_template rnd t (Suc k) = (s1, k1)"
      by (cases "fill_template rnd t (Suc k)")
    from Cons.prems Placeholder r have s: "s = digit_char (rnd k) # s1" by simp
    from Cons.IH [OF r] have "matches_template t s1" .
    then show ?thesis
      using s Placeholder is_digit_digit_char by (simp add: matches_template_def slot_ok_def)
  next
    case (Literal l)
    obtain s1 k1 where r: "fill_template rnd t k = (s1, k1)"
      by (cases "fill_template rnd t k")
    from Cons.prems Literal r have s: "s = l # s1" by simp
    from Cons.IH [OF r] have "matches_template t s1" .
    then show ?thesis
      using s Literal by (simp add: matches_template_def slot_ok_def)
  qed
qed

lemma fill_many_matches:
  "fill_many rnd t n k = (xs, k') \<Longrightarrow> x \<in> set xs \<Longrightarrow> matches_template t x"
proof (induction n arbitrary: k xs k')
  case 0
  then show ?case by simp
next
  case (Suc n)
  obtain s k1 where f: "fill_template rnd t k = (s, k1)" by (cases "fill_template rnd t k")
  obtain ss k2 where m: "fill_many rnd t n k1 = (ss, k2)" by (cases "fill_many rnd t n k1")
  from Suc.prems(1) f m have "xs = s # ss" by simp
  with Suc.prems(2) have "x = s \<or> x \<in> set ss" by simp
  then show ?case
    using fill_template_matches [OF f] Suc.IH [OF m] by blast
qed

lemma generatePhoneNumber_matches:
  "generatePhoneNumber rnd c n k = Inr (xs, k') \<Longrightarrow> x \<in> set xs \<Longrightarrow>
     matches_template (format c) x"
  unfolding generatePhoneNumber_def
  using fill_many_matches [of rnd "format c" "nat n" k xs k' x] by simp

lemma gen_batches_matches:
  "gen_batches (generatePhoneNumber rnd) c ms k = Inr (bs, k') \<Longrightarrow> b \<in> set bs \<Longrightarrow>
     x \<in> set b \<Longrightarrow> matches_template (format c) x"
proof (induction ms arbitrary: k bs k')
  case Nil
  then show ?case by simp
next
  case (Cons m ms)
  from Cons.prems(1) obtain b1 k1 bs1 where
    g: "generatePhoneNumber rnd c m k = Inr (b1, k1)"
    and r: "gen_batches (generatePhoneNumber rnd) c ms k1 = Inr (bs1, k')"
    and bs: "bs = b1 # bs1"
    by (auto split: sum.splits prod.splits)
  from Cons.prems(2) bs have "b = b1 \<or> b \<in> set bs1" by simp
  then show ?case
    using generatePhoneNumber_matches [OF g] Cons.IH [OF r] Cons.prems(3) by blast
qed

lemma generate_numbers_matches:
  assumes "generate_numbers (generatePhoneNumber rnd) c n k = Inr (xs, k')" and "x \<in> set xs"
  shows "matches_template (format c) x"
proof (cases "n \<le> 2000")
  case True
  with assms show ?thesis
    using generatePhoneNumber_matches [of rnd c n k xs k' x] by (simp add: generate_numbers_def)
next
  case False
  then have "batch_loop (generatePhoneNumber rnd) c n (batches_of n) 0 [] k = Inr (xs, k')"
    using assms(1) by (simp add: generate_numbers_def)
  then obtain bs where
    g: "gen_batches (generatePhoneNumber rnd) c (batch_sizes n) k = Inr (bs, k')"
    and xs: "xs = concat bs"
    by (auto simp: batch_loop_gen_batches batch_sizes_def split: sum.splits prod.splits)
  from assms(2) xs obtain b where "b \<in> set bs" and "x \<in> set b" by auto
  then show ?thesis using gen_batches_matches [OF g] by blast
qed

lemma generate_numbers_total:
  "\<exists>xs k'. generate_numbers (generatePhoneNumber rnd) c n k = Inr (xs, k')"
proof (cases "n \<le> 2000")
  case True
  then show ?thesis by (simp add: generate_numbers_def generatePhoneNumber_def)
next
  case False
  obtain bs k' where
    "gen_batches (generatePhoneNumber rnd) c (batch_sizes n) k = Inr (bs, k')"
    using gen_batches_lengths [OF generatePhoneNumber_returns_requested] by blast
  with False show ?thesis
    by (simp add: generate_numbers_def batch_loop_gen_batches batch_sizes_def)
qed

lemma matches_template_length: "matches_template t s \<Longrightarrow> length s = length t"
  by (simp add: matches_template_def list_all2_lengthD)

lemma selectedCountry_handleGenerate_timeout:
  "selectedCountry (handleGenerate_timeout gen ok c n r s) = selectedCountry s"
  by (simp add: handleGenerate_timeout_def Let_def split: sum.splits prod.splits)

text \<open>
  C2. With a country selected, no callback waiting and a count between 1 and 10000, a
  click on the generate button followed by its callback leaves the country selected and
  fills the list with as many numbers as were asked for, each of which matches the template
  of that country: it has the length of the template, a digit in every placeholder position
  and the template's own character everywhere else.
\<close>

theorem generated_numbers_match_template:
  assumes sel: "selectedCountry s = Some c" and idle: "pending s = []"
    and lo: "1 \<le> count s" and hi: "count s \<le> 10000"
  shows "selectedCountry (run_pending (generatePhoneNumber rnd) ok k (handleGenerate s)) = Some c
    \<and> length (generatedNumbers (run_pending (generatePhoneNumber rnd) ok k (handleGenerate s)))
        = nat (count s)
    \<and> (\<forall>num \<in> set (generatedNumbers
            (run_pending (generatePhoneNumber rnd) ok k (handleGenerate s))).
          matches_template (format c) num \<and> length num = length (format c))"
proof -
  let ?gen = "generatePhoneNumber rnd"
  let ?s' = "run_pending ?gen ok k (handleGenerate s)"
  note run = run_pending_after_click [OF sel idle, of ?gen ok k]
  obtain xs k' where g: "generate_numbers ?gen c (count s) k = Inr (xs, k')"
    and lx: "length xs = nat (count s)"
    using generate_numbers_length [OF generatePhoneNumber_returns_requested lo] by blast
  have nums: "generatedNumbers ?s' = xs"
    unfolding run by (rule generatedNumbers_timeout [OF g])
  have country: "selectedCountry ?s' = Some c"
    unfolding run using sel by (simp add: selectedCountry_handleGenerate_timeout)
  have each: "\<forall>num \<in> set (generatedNumbers ?s').
      matches_template (format c) num \<and> length num = length (format c)"
  proof
    fix num
    assume "num \<in> set (generatedNumbers ?s')"
    with nums have "num \<in> set xs" by simp
    then have "matches_template (format c) num"
      using generate_numbers_matches [OF g] by blast
    then show "matches_template (format c) num \<and> length num = length (format c)"
      using matches_template_length by blast
  qed
  from country nums lx each show ?thesis by simp
qed

lemma parseInt10_2: "parseInt10 ''2'' = Some 2"
  by (simp add: parseInt10_def isStrWhiteSpaceChar_def is_digit_def digits_value_def
      digit_val_def)

theorem generated_numbers_match_template_witness:
  "phone_reachable (generatePhoneNumber (\<lambda>k. k)) [example_country] example_ready_state
   \<and> selectedCountry example_ready_state = Some example_country
   \<and> count example_ready_state = 2
   \<and> generatedNumbers (run_pending (generatePhoneNumber (\<lambda>k. k)) True 0
        (handleGenerate example_ready_state)) = [''+1 012-3456'', ''+1 789-0123'']
   \<and> matches_template (format example_country) ''+1 012-3456''
   \<and> matches_template (format example_country) ''+1 789-0123''"
proof -
  have r: "phone_reachable (generatePhoneNumber (\<lambda>k. k)) [example_country] example_ready_state"
    unfolding example_ready_state_def by (intro phone_reachable.intros)
  have sel: "selectedCountry example_ready_state = Some example_country"
    and idle: "pending example_ready_state = []"
    and n: "count example_ready_state = 2"
    by (simp_all add: example_ready_state_def count_onChange_def parseInt10_2
        load_settings_def first_country_def phone_init_def STORAGE_KEY_COUNTRY_def
        STORAGE_KEY_COUNT_def)
  have lo: "1 \<le> count example_ready_state" and hi: "count example_ready_state \<le> 10000"
    using n by simp_all
  have e: "generatedNumbers (run_pending (generatePhoneNumber (\<lambda>k. k)) True 0
        (handleGenerate example_ready_state)) = [''+1 012-3456'', ''+1 789-0123'']"
    unfolding run_pending_after_click [OF sel idle]
    by (simp add: n handleGenerate_timeout_def generate_numbers_def generatePhoneNumber_def
        numeral_2_eq_2 example_country_def digit_char_def Let_def)
  from generated_numbers_match_template [OF sel idle lo hi, of "\<lambda>k. k" True 0] e r sel n
  show ?thesis by simp
qed

subsection \<open>The count\<close>

lemma count_load_settings:
  "count (load_settings countries ok s) =
     (if ok then
        (case storage s STORAGE_KEY_COUNT of
           None \<Rightarrow> count s
         | Some txt \<Rightarrow>
             if txt \<noteq> [] \<and> count_in_range (parseInt10 txt) then the (parseInt10 txt)
             else count s)
      else count s)"
  by (simp add: load_settings_def count_in_range_def Let_def split: option.splits)

lemma count_count_onChange:
  "count (count_onChange txt s) =
     (if count_in_range (parseInt10 txt) then the (parseInt10 txt) else count s)"
  by (simp add: count_onChange_def count_in_range_def split: option.splits)

lemma count_in_range_the: "count_in_range v \<Longrightarrow> 1 \<le> the v \<and> the v \<le> 10000"
  by (cases v) (simp_all add: count_in_range_def)

lemma count_handleSelectCountry: "count (handleSelectCountry ok c s) = count s"
  by (simp add: handleSelectCountry_def Let_def)

lemma count_handleGenerate: "count (handleGenerate s) = count s"
  by (simp add: handleGenerate_def split: option.splits)

lemma count_handleGenerate_timeout: "count (handleGenerate_timeout gen ok c n r s) = count s"
  by (simp add: handleGenerate_timeout_def Let_def split: sum.splits prod.splits)

lemma count_run_pending: "count (run_pending gen ok r s) = count s"
  by (simp add: run_pending_def count_handleGenerate_timeout split: list.splits prod.splits)

lemma reachable_count_range:
  "phone_reachable gen countries s \<Longrightarrow> 1 \<le> count s \<and> count s \<le> 10000"
proof (induction rule: phone_reachable.induct)
  case (reach_init st)
  show ?case by (simp add: phone_init_def)
next
  case (reach_load s storage_ok)
  then show ?case
    using count_in_range_the by (auto simp: count_load_settings split: option.splits)
next
  case (reach_select s country storage_ok)
  then show ?case by (simp add: count_handleSelectCountry)
next
  case (reach_typed s input)
  then show ?case
    using count_in_range_the by (auto simp: count_count_onChange)
next
  case (reach_click s)
  then show ?case by (simp add: count_handleGenerate)
next
  case (reach_timeout s storage_ok r)
  then show ?case by (simp add: count_run_pending)
qed

text \<open>
  C5. The count starts at 10 and lies between 1 and 10000 in every state of the page. The
  settings-load effect and the input handler replace it by the parsed text exactly when
  the text parses to an integer above 0 and at most 10000, and keep it otherwise.
\<close>

theorem count_stays_in_range:
  "count (phone_init st) = 10
   \<and> (phone_reachable gen countries s \<longrightarrow> 1 \<le> count s \<and> count s \<le> 10000)
   \<and> count (load_settings countries ok s') =
       (if ok then
          (case storage s' STORAGE_KEY_COUNT of
             None \<Rightarrow> count s'
           | Some txt \<Rightarrow>
               if txt \<noteq> [] \<and> count_in_range (parseInt10 txt) then the (parseInt10 txt)
               else count s')
        else count s')
   \<and> count (count_onChange input s') =
       (if count_in_range (parseInt10 input) then the (parseInt10 input) else count s')"
  using reachable_count_range [of gen countries s] count_load_settings [of countries ok s']
    count_count_onChange [of input s']
  by (simp add: phone_init_def)

lemma parseInt10_500: "parseInt10 ''500'' = Some 500"
  by (simp add: parseInt10_def isStrWhiteSpaceChar_def is_digit_def digits_value_def
      digit_val_def)

lemma parseInt10_99999: "parseInt10 ''99999'' = Some 99999"
  by (simp add: parseInt10_def isStrWhiteSpaceChar_def is_digit_def digits_value_def
      digit_val_def)

lemma parseInt10_neg: "parseInt10 ''-3'' = Some (- 3)"
  by (simp add: parseInt10_def isStrWhiteSpaceChar_def is_digit_def digits_value_def
      digit_val_def)

lemma parseInt10_nan: "parseInt10 ''abc'' = None"
  by (simp add: parseInt10_def isStrWhiteSpaceChar_def is_digit_def)

theorem count_stays_in_range_witness:
  "phone_reachable (generatePhoneNumber (\<lambda>k. k)) [example_country]
      (count_onChange ''99999'' (count_onChange ''500'' (phone_init Map.empty)))
   \<and> count (count_onChange ''99999'' (count_onChange ''500'' (phone_init Map.empty))) = 500
   \<and> 1 \<le> count (count_onChange ''99999'' (count_onChange ''500'' (phone_init Map.empty)))
   \<and> count (count_onChange ''99999'' (count_onChange ''500'' (phone_init Map.empty))) \<le> 10000"
proof -
  let ?s = "count_onChange ''99999'' (count_onChange ''500'' (phone_init Map.empty))"
  have r: "phone_reachable (generatePhoneNumber (\<lambda>k. k)) [example_country] ?s"
    by (intro phone_reachable.intros)
  have c: "count ?s = 500"
    by (simp add: count_onChange_def parseInt10_500 parseInt10_99999 phone_init_def)
  from count_stays_in_range [of Map.empty "generatePhoneNumber (\<lambda>k. k)" "[example_country]" ?s]
    r c
  show ?thesis by blast
qed

section \<open>Properties of the identity generator page\<close>

subsection \<open>The custom domain\<close>

lemma example_home_state_initial:
  "home_init example_generators [example_config] 0 = Inr example_home_state"
  by (simp add: home_init_def generate_try_def example_generators_def example_home_state_def)

lemma home_init_random: "home_init G countries r = Inr s \<Longrightarrow> selectedDomain s = ''random''"
  by (auto simp: home_init_def split: list.splits sum.splits)

lemma generate_try_success:
  assumes "generateName G (config_code cfg) r = Inr ((first_name, last_name), r1)"
    and "generateBirthday G r1 = Inr (b, r2)"
    and "generatePhone G cfg r2 = Inr (p, r3)"
    and "generatePassword G r3 = Inr (pw, r4)"
  shows "generate_try G cfg custom r =
     (case generateEmail G first_name last_name custom r4 of
        Inl e \<Rightarrow> Inl e
      | Inr (em, r5) \<Rightarrow>
          Inr \<lparr>firstName = first_name, lastName = last_name, birthday = b, phone = p,
               password = pw, email = em\<rparr>)"
  using assms by (simp add: generate_try_def)

lemma generate_try_Inr:
  assumes "generate_try G cfg custom r = Inr u"
  shows "\<exists>first_name last_name b p pw em r1 r2 r3 r4 r5.
     generateName G (config_code cfg) r = Inr ((first_name, last_name), r1)
     \<and> generateBirthday G r1 = Inr (b, r2)
     \<and> generatePhone G cfg r2 = Inr (p, r3)
     \<and> generatePassword G r3 = Inr (pw, r4)
     \<and> generateEmail G first_name last_name custom r4 = Inr (em, r5)
     \<and> u = \<lparr>firstName = first_name, lastName = last_name, birthday = b, phone = p,
             password = pw, email = em\<rparr>"
  using assms unfolding generate_try_def
  by (auto split: sum.splits prod.splits)

lemma generate_passes_custom_domain:
  assumes "generateName G (config_code cfg) r = Inr ((first_name, last_name), r1)"
    and "generateBirthday G r1 = Inr (b, r2)"
    and "generatePhone G cfg r2 = Inr (p, r3)"
    and "generatePassword G r3 = Inr (pw, r4)"
  shows "email (userInfo (generate_timeout G cfg d r s)) =
     (case generateEmail G first_name last_name (if d = ''random'' then None else Some d) r4 of
        Inl e \<Rightarrow> email (userInfo s)
      | Inr (em, r5) \<Rightarrow> em)"
  using generate_try_success [OF assms, of "customDomain d"]
  by (simp add: generate_timeout_def customDomain_def split: sum.splits prod.splits)

text \<open>
  C3. In \<open>generate\<close> the custom domain handed to \<open>generateEmail\<close> is absent for the
  selected domain \<open>random\<close> and is the selected domain otherwise
  (\<open>generate_passes_custom_domain\<close>). The generation inside \<open>detectIP\<close> does not follow
  the selection: after the first render a domain is selected, then the lookup answers with
  an accurate, known country; \<open>detectIP\<close> calls \<open>generateEmail\<close> with no custom domain,
  where the callback of \<open>generate\<close> in the same state passes the selected one. The example
  \<open>generateEmail\<close> writes its custom domain, or \<open>any.example\<close> for none, after the
  \<open>@\<close>.
\<close>

theorem detectIP_ignores_selected_domain:
  "home_init example_generators [example_config] 0 = Inr example_home_state
   \<and> selectedDomain (handleDomainSelect ''foo.example'' example_home_state) = ''foo.example''
   \<and> email (userInfo (detectIP_effect example_generators example_home_state
        (Inr example_ip_data) True 1
        (handleDomainSelect ''foo.example'' example_home_state))) = ''Ann@any.example''
   \<and> email (userInfo (home_run_pending example_generators 1
        (generate (handleDomainSelect ''foo.example'' example_home_state)))) = ''Ann@foo.example''"
  by (simp add: example_home_state_initial)
     (simp add: detectIP_effect_def detectIP_def home_run_pending_def generate_def
        generate_timeout_def generate_try_def customDomain_def handleDomainSelect_def
        example_home_state_def example_generators_def example_ip_data_def or_default_def
        Let_def)

subsection \<open>Regeneration\<close>

lemma userInfo_generate_timeout:
  "userInfo (generate_timeout G cfg d r s) =
     (case generate_try G cfg (customDomain d) r of Inl e \<Rightarrow> userInfo s | Inr u \<Rightarrow> u)"
  by (simp add: generate_timeout_def split: sum.splits)

lemma home_isGenerating_generate_timeout:
  "home_isGenerating (generate_timeout G cfg d r s) = False"
  by (simp add: generate_timeout_def split: sum.splits)

lemma isGenerating_handleGenerate_timeout:
  "isGenerating (handleGenerate_timeout gen ok c n r s) = False"
  by (simp add: handleGenerate_timeout_def Let_def split: sum.splits prod.splits)

lemma generatedNumbers_timeout_throws:
  "generate_numbers gen c n r = Inl e \<Longrightarrow>
     generatedNumbers (handleGenerate_timeout gen ok c n r s) = generatedNumbers s"
  by (simp add: handleGenerate_timeout_def)

text \<open>
  C8. When the five generator calls of a regeneration succeed, the record of the page
  becomes the record of their six results. After any regeneration the record is either
  the one before, untouched, or such a record of six generated values: no field is
  replaced alone. The first record of the page is built the same way.
\<close>

theorem regeneration_replaces_whole_record:
  "(generateName G (config_code cfg) r = Inr ((first_name, last_name), r1)
      \<and> generateBirthday G r1 = Inr (b, r2)
      \<and> generatePhone G cfg r2 = Inr (p, r3)
      \<and> generatePassword G r3 = Inr (pw, r4)
      \<and> generateEmail G first_name last_name (customDomain d) r4 = Inr (em, r5)
    \<longrightarrow> userInfo (generate_timeout G cfg d r s) =
          \<lparr>firstName = first_name, lastName = last_name, birthday = b, phone = p,
           password = pw, email = em\<rparr>)
   \<and> (userInfo (generate_timeout G cfg d r s) = userInfo s
      \<or> generated_record G cfg (customDomain d) r (userInfo (generate_timeout G cfg d r s)))
   \<and> (home_init G countries r = Inr s0 \<longrightarrow>
        (\<exists>c0 rest. countries = c0 # rest \<and> generated_record G c0 None r (userInfo s0)))"
proof (intro conjI impI)
  assume "generateName G (config_code cfg) r = Inr ((first_name, last_name), r1)
      \<and> generateBirthday G r1 = Inr (b, r2)
      \<and> generatePhone G cfg r2 = Inr (p, r3)
      \<and> generatePassword G r3 = Inr (pw, r4)
      \<and> generateEmail G first_name last_name (customDomain d) r4 = Inr (em, r5)"
  then have "generate_try G cfg (customDomain d) r =
      Inr \<lparr>firstName = first_name, lastName = last_name, birthday = b, phone = p,
           password = pw, email = em\<rparr>"
    by (simp add: generate_try_def)
  then show "userInfo (generate_timeout G cfg d r s) =
          \<lparr>firstName = first_name, lastName = last_name, birthday = b, phone = p,
           password = pw, email = em\<rparr>"
    by (simp add: userInfo_generate_timeout)
next
  show "userInfo (generate_timeout G cfg d r s) = userInfo s
      \<or> generated_record G cfg (customDomain d) r (userInfo (generate_timeout G cfg d r s))"
  proof (cases "generate_try G cfg (customDomain d) r")
    case (Inl e)
    then show ?thesis by (simp add: userInfo_generate_timeout)
  next
    case (Inr u)
    from generate_try_Inr [OF Inr] have "generated_record G cfg (customDomain d) r u"
      unfolding generated_record_def .
    with Inr show ?thesis by (simp add: userInfo_generate_timeout)
  qed
next
  assume i: "home_init G countries r = Inr s0"
  then obtain c0 rest where c: "countries = c0 # rest"
    by (cases countries) (simp_all add: home_init_def)
  from i c obtain u where t: "generate_try G c0 None r = Inr u" and u: "userInfo s0 = u"
    by (auto simp: home_init_def split: sum.splits)
  from generate_try_Inr [OF t] have "generated_record G c0 None r u"
    unfolding generated_record_def .
  with c u show "\<exists>c0 rest. countries = c0 # rest \<and> generated_record G c0 None r (userInfo s0)"
    by blast
qed

theorem regeneration_replaces_whole_record_witness:
  "userInfo (generate_timeout example_generators example_config ''foo.example'' 7
      (example_home_state\<lparr>userInfo := \<lparr>firstName = ''Old'', lastName = ''Old'',
         birthday = ''Old'', phone = ''Old'', password = ''Old'', email = ''Old''\<rparr>\<rparr>))
   = \<lparr>firstName = ''Ann'', lastName = ''Lee'', birthday = ''1990-01-01'', phone = ''555-0100'',
      password = ''s3cret'', email = ''Ann@foo.example''\<rparr>"
proof -
  have "generateName example_generators (config_code example_config) 7 = Inr ((''Ann'', ''Lee''), 8)
      \<and> generateBirthday example_generators 8 = Inr (''1990-01-01'', 9)
      \<and> generatePhone example_generators example_config 9 = Inr (''555-0100'', 10)
      \<and> generatePassword example_generators 10 = Inr (''s3cret'', 11)
      \<and> generateEmail example_generators ''Ann'' ''Lee'' (customDomain ''foo.example'') 11
          = Inr (''Ann@foo.example'', 12)"
    by (simp add: example_generators_def customDomain_def)
  with regeneration_replaces_whole_record
    [of example_generators example_config 7 "''Ann''" "''Lee''" 8 "''1990-01-01''" 9
        "''555-0100''" 10 "''s3cret''" 11 "''foo.example''" "''Ann@foo.example''" 12]
  show ?thesis by blast
qed

text \<open>
  C10. When the generation throws, the callback of \<open>handleGenerate\<close> leaves
  \<open>generatedNumbers\<close> as it was and the callback of \<open>generate\<close> leaves \<open>userInfo\<close> as
  it was; both lower their \<open>isGenerating\<close> flag whether the generation threw or not.
\<close>

theorem failed_generation_keeps_results:
  "(generate_numbers gen c n r = Inl e \<longrightarrow>
      generatedNumbers (handleGenerate_timeout gen ok c n r s) = generatedNumbers s)
   \<and> isGenerating (handleGenerate_timeout gen ok c n r s) = False
   \<and> (generate_try G cfg (customDomain d) r' = Inl e' \<longrightarrow>
      userInfo (generate_timeout G cfg d r' s') = userInfo s')
   \<and> home_isGenerating (generate_timeout G cfg d r' s') = False"
  by (simp add: generatedNumbers_timeout_throws isGenerating_handleGenerate_timeout
      userInfo_generate_timeout home_isGenerating_generate_timeout)

lemma example_failing_gen_throws:
  "generate_numbers example_failing_gen example_country 2500 0 = Inl (Thrown ''out of digits'')"
proof -
  obtain b1 k1 where b1: "generatePhoneNumber (\<lambda>k. k) example_country 1000 0 = Inr (b1, k1)"
    using generatePhoneNumber_length by blast
  obtain b2 k2 where b2: "generatePhoneNumber (\<lambda>k. k) example_country 1000 k1 = Inr (b2, k2)"
    using generatePhoneNumber_length by blast
  have "batches_of 2500 = 3" by (simp add: batches_of_def batchSize_def)
  then show ?thesis
    using b1 b2
    by (simp add: generate_numbers_def batch_loop.simps batchSize_def example_failing_gen_def)
qed

theorem failed_generation_keeps_results_witness:
  "generate_numbers example_failing_gen example_country 2500 0 = Inl (Thrown ''out of digits'')
   \<and> generatedNumbers (handleGenerate_timeout example_failing_gen True example_country 2500 0
        example_busy_state) = [''+1 000-0000'']
   \<and> isGenerating (handleGenerate_timeout example_failing_gen True example_country 2500 0
        example_busy_state) = False
   \<and> generate_try example_failing_generators example_config (customDomain ''random'') 0
        = Inl (Thrown ''no entropy'')
   \<and> userInfo (generate_timeout example_failing_generators example_config ''random'' 0
        (generate example_home_state)) = userInfo example_home_state
   \<and> home_isGenerating (generate_timeout example_failing_generators example_config ''random'' 0
        (generate example_home_state)) = False"
proof -
  have t: "generate_try example_failing_generators example_config (customDomain ''random'') 0
        = Inl (Thrown ''no entropy'')"
    by (simp add: generate_try_def example_failing_generators_def example_generators_def)
  have n: "generatedNumbers example_busy_state = [''+1 000-0000'']"
    by (simp add: example_busy_state_def)
  have u: "userInfo (generate example_home_state) = userInfo example_home_state"
    by (simp add: generate_def)
  from failed_generation_keeps_results
    [of example_failing_gen example_country 2500 0 "Thrown ''out of digits''" True
        example_busy_state example_failing_generators example_config "''random''" 0
        "Thrown ''no entropy''" "generate example_home_state"]
    example_failing_gen_throws t n u
  show ?thesis by simp
qed

subsection \<open>The IP lookup\<close>

lemma ip_detectIP_missing:
  "data_ip data = None \<Longrightarrow> ip (ipInfo (detectIP G (Inr data) True d r s)) = unknown_ip"
  by (simp add: detectIP_def or_default_def fallback_ipInfo_def Let_def
      split: option.splits sum.splits)

lemma country_detectIP_missing:
  "data_country data = None \<Longrightarrow>
     ipInfo (detectIP G (Inr data) True d r s) =
       \<lparr>ip = or_default (data_ip data) unknown_ip, country = ''US''\<rparr>"
  by (simp add: detectIP_def or_default_def Let_def)

text \<open>
  C7. While the page is mounted: when the fetch or the decoding throws, \<open>detectIP\<close> ends
  with the state holding the fallback, the placeholder for the address and \<open>US\<close> for the
  country (\<open>detectIP\<close> returns a state on every path: nothing propagates). When the
  response lacks the address the placeholder is shown, and when it lacks the country
  \<open>US\<close> is shown, beside the address of the response or its placeholder. After the page
  was unmounted nothing is displayed and \<open>detectIP\<close> leaves the state alone.
\<close>

theorem detectIP_falls_back:
  "ipInfo (detectIP G (Inl e) True d r s) = \<lparr>ip = unknown_ip, country = ''US''\<rparr>
   \<and> (data_ip data = None \<longrightarrow>
        ip (ipInfo (detectIP G (Inr data) True d r s)) = unknown_ip)
   \<and> (data_country data = None \<longrightarrow>
        country (ipInfo (detectIP G (Inr data) True d r s)) = ''US''
        \<and> ip (ipInfo (detectIP G (Inr data) True d r s)) = or_default (data_ip data) unknown_ip)
   \<and> detectIP G response False d r s = s"
proof -
  have "detectIP G response False d r s = s"
    by (cases response) (simp_all add: detectIP_def)
  then show ?thesis
    using ip_detectIP_missing [of data G d r s] country_detectIP_missing [of data G d r s]
    by (simp add: detectIP_def fallback_ipInfo_def)
qed

theorem detectIP_falls_back_witness:
  "ipInfo (detectIP example_generators (Inl (Thrown ''Failed to fetch'')) True ''random'' 0
      example_home_state) = \<lparr>ip = unknown_ip, country = ''US''\<rparr>
   \<and> ipInfo (detectIP example_generators
        (Inr \<lparr>data_ip = None, data_country = None, data_accurate = False\<rparr>) True ''random'' 0
        example_home_state) = \<lparr>ip = unknown_ip, country = ''US''\<rparr>
   \<and> ipInfo (detectIP example_generators
        (Inr \<lparr>data_ip = Some ''203.0.113.7'', data_country = None, data_accurate = False\<rparr>)
        True ''random'' 0 example_home_state) = \<lparr>ip = ''203.0.113.7'', country = ''US''\<rparr>"
proof -
  have a: "data_ip \<lparr>data_ip = None, data_country = None, data_accurate = False\<rparr> = None"
    and b: "data_country \<lparr>data_ip = None, data_country = None, data_accurate = False\<rparr> = None"
    and c: "data_country
        \<lparr>data_ip = Some ''203.0.113.7'', data_country = None, data_accurate = False\<rparr> = None"
    by simp_all
  have eq: "\<And>i. ip i = ip' \<Longrightarrow> country i = c' \<Longrightarrow> i = \<lparr>ip = ip', country = c'\<rparr>" for ip' c'
    by auto
  from detectIP_falls_back
     [of example_generators "Thrown ''Failed to fetch''" "''random''" 0 example_home_state
         "\<lparr>data_ip = None, data_country = None, data_accurate = False\<rparr>" "Inr example_ip_data"]
    detectIP_falls_back
     [of example_generators "Thrown ''Failed to fetch''" "''random''" 0 example_home_state
         "\<lparr>data_ip = Some ''203.0.113.7'', data_country = None, data_accurate = False\<rparr>"
         "Inr example_ip_data"]
    a b c
  show ?thesis by (auto simp: or_default_def intro!: eq)
qed

subsection \<open>Copy feedback\<close>

lemma copiedField_copy:
  "copiedField (copyToClipboard True t label now s) = Some label"
  by (simp add: copyToClipboard_def)

lemma copyTimer_copy:
  "copyTimer (copyToClipboard True t label now s) = Some (now + 2000)"
  by (simp add: copyToClipboard_def)

lemma time_passes_before:
  "copyTimer s = Some due \<Longrightarrow> now < due \<Longrightarrow> time_passes now s = s"
  by (simp add: time_passes_def)

lemma time_passes_after:
  "copyTimer s = Some due \<Longrightarrow> due \<le> now \<Longrightarrow> copiedField (time_passes now s) = None"
  by (simp add: time_passes_def)

text \<open>
  C9, as amended. A successful copy records its field as the copied one; the field shows
  its indicator at every time before two seconds have passed and none is shown from two
  seconds on, if nothing else happens in between. The page keeps one copied field: the
  copy ends the indicator of every other field at once, a regeneration clears it, and a
  failed copy changes nothing.
\<close>

theorem copy_feedback_single_slot:
  "isCopied label (copyToClipboard True t label now s)
   \<and> (now' < now + 2000 \<longrightarrow>
        isCopied label (time_passes now' (copyToClipboard True t label now s)))
   \<and> (now + 2000 \<le> now' \<longrightarrow>
        copiedField (time_passes now' (copyToClipboard True t label now s)) = None)
   \<and> (other \<noteq> label \<longrightarrow> \<not> isCopied other (copyToClipboard True t label now s))
   \<and> copiedField (generate s) = None
   \<and> copyToClipboard False t label now s = s"
proof -
  let ?s = "copyToClipboard True t label now s"
  have 1: "isCopied label ?s" by (simp add: isCopied_def copiedField_copy)
  have 2: "now' < now + 2000 \<longrightarrow> isCopied label (time_passes now' ?s)"
    using time_passes_before [OF copyTimer_copy, of now' now t label s] 1 by simp
  have 3: "now + 2000 \<le> now' \<longrightarrow> copiedField (time_passes now' ?s) = None"
    using time_passes_after [OF copyTimer_copy, of now now' t label s] by simp
  have 4: "other \<noteq> label \<longrightarrow> \<not> isCopied other ?s"
    by (simp add: isCopied_def copiedField_copy)
  have 5: "copiedField (generate s) = None" by (simp add: generate_def)
  have 6: "copyToClipboard False t label now s = s" by (simp add: copyToClipboard_def)
  from 1 2 3 4 5 6 show ?thesis by blast
qed

theorem copy_feedback_single_slot_witness:
  "isCopied ''email'' (time_passes 1999 (copyToClipboard True ''a@b.c'' ''email'' 0 example_home_state))
   \<and> copiedField (time_passes 2000 (copyToClipboard True ''a@b.c'' ''email'' 0 example_home_state))
       = None"
  using copy_feedback_single_slot
    [of "''email''" "''a@b.c''" 0 example_home_state 1999 "''phone''"]
    copy_feedback_single_slot
    [of "''email''" "''a@b.c''" 0 example_home_state 2000 "''phone''"]
  by simp

text \<open>
  The claim as stated fails: half a second after the phone row was copied its indicator is
  shown, and a copy of the email row at that moment ends it.
\<close>

theorem copy_feedback_not_independent:
  "isCopied ''phone''
      (time_passes 500 (copyToClipboard True ''555-0100'' ''phone'' 0 example_home_state))
   \<and> \<not> isCopied ''phone''
      (copyToClipboard True ''a@b.c'' ''email'' 500
        (time_passes 500 (copyToClipboard True ''555-0100'' ''phone'' 0 example_home_state)))"
  by (simp add: isCopied_def copyToClipboard_def time_passes_def example_home_state_def)

section \<open>Properties of the filters\<close>

subsection \<open>Substring search\<close>



text \<open>
  Where \<open>toLowerCase\<close> works unit by unit, as it does on strings of ASCII and uncased
  characters, containing the query with case set aside is the same as having a run of
  consecutive units that equals the query up to case.
\<close>

lemma map_split3:
  assumes "map f xs = B @ Q @ A"
  shows "\<exists>before run after. xs = before @ run @ after \<and> map f run = Q"
proof -
  from assms obtain before rest where i1: "xs = before @ rest" and r: "map f rest = Q @ A"
    using map_eq_append_conv [THEN iffD1, of f xs B "Q @ A"] by auto
  from r obtain run after where i2: "rest = run @ after" and q: "map f run = Q"
    using map_eq_append_conv [THEN iffD1, of f rest Q A] by auto
  from i1 i2 q show ?thesis by blast
qed

lemma contains_ci_run:
  "contains_ci (map f) item q \<longleftrightarrow>
     (\<exists>before run after. item = before @ run @ after \<and> map f run = map f q)"
proof
  assume "contains_ci (map f) item q"
  then obtain B A where "map f item = B @ map f q @ A"
    unfolding contains_ci_def by blast
  from map_split3 [OF this] show "\<exists>before run after. item = before @ run @ after \<and> map f run = map f q"
    by blast
next
  assume "\<exists>before run after. item = before @ run @ after \<and> map f run = map f q"
  then obtain before run after where i: "item = before @ run @ after"
    and l: "map f run = map f q"
    by blast
  have "map f item = map f before @ map f run @ map f after"
    unfolding i by (simp only: map_append)
  then have "map f item = map f before @ map f q @ map f after"
    by (simp only: l)
  then show "contains_ci (map f) item q"
    unfolding contains_ci_def by blast
qed









section \<open>Properties of the mailbox directory page\<close>

lemma toggles_statusD:
  assumes "toggles_status L"
  shows "fst (toggleFavorite L mail st) = (\<not> isFavorite L (mail_id mail) st)"
    and "isFavorite L (mail_id mail) (snd (toggleFavorite L mail st))
          = (\<not> isFavorite L (mail_id mail) st)"
    and "i \<noteq> mail_id mail \<Longrightarrow>
          isFavorite L i (snd (toggleFavorite L mail st)) = isFavorite L i st"
  using assms unfolding toggles_status_def by blast+

lemma favorites_toggle:
  "favorites (handleToggleFavorite L mail s) =
     (if fst (toggleFavorite L mail (persisted s)) then insert (mail_id mail) (favorites s)
      else favorites s - {mail_id mail})"
  by (simp add: handleToggleFavorite_def split: prod.splits)

lemma persisted_toggle:
  "persisted (handleToggleFavorite L mail s) = snd (toggleFavorite L mail (persisted s))"
  by (simp add: handleToggleFavorite_def split: prod.splits)

lemma favorites_toggle_twice:
  assumes "toggles_status L"
  shows "favorites (handleToggleFavorite L mail (handleToggleFavorite L mail s)) =
     (if isFavorite L (mail_id mail) (persisted s) then insert (mail_id mail) (favorites s)
      else favorites s - {mail_id mail})"
proof -
  let ?st = "persisted s"
  let ?st1 = "snd (toggleFavorite L mail ?st)"
  have b1: "fst (toggleFavorite L mail ?st) = (\<not> isFavorite L (mail_id mail) ?st)"
    by (rule toggles_statusD(1) [OF assms])
  have b2: "fst (toggleFavorite L mail ?st1) = isFavorite L (mail_id mail) ?st"
    using toggles_statusD(1) [OF assms, of mail ?st1] toggles_statusD(2) [OF assms, of mail ?st]
    by simp
  show ?thesis
    unfolding favorites_toggle [of L mail "handleToggleFavorite L mail s"] persisted_toggle b2
    unfolding favorites_toggle [of L mail s] b1
    by auto
qed

lemma toggle_twice_agree:
  assumes "toggles_status L" and "agree_on L mail s"
  shows "favorites (handleToggleFavorite L mail (handleToggleFavorite L mail s)) = favorites s"
  using assms(2) unfolding favorites_toggle_twice [OF assms(1)] agree_on_def by auto

lemma load_favorites_agree:
  "mail \<in> set tempMailList \<Longrightarrow> agree_on L mail (load_favorites L tempMailList s)"
  by (auto simp: agree_on_def load_favorites_def)

lemma toggle_keeps_agree:
  assumes "toggles_status L" and "agree_on L mail s"
  shows "agree_on L mail (handleToggleFavorite L other s)"
proof (cases "mail_id mail = mail_id other")
  case True
  then show ?thesis
    using toggles_statusD(1,2) [OF assms(1), of other "persisted s"]
    by (auto simp: agree_on_def favorites_toggle persisted_toggle)
next
  case False
  then show ?thesis
    using toggles_statusD(3) [OF assms(1), of "mail_id mail" other "persisted s"] assms(2)
    by (auto simp: agree_on_def favorites_toggle persisted_toggle)
qed

lemma reachable_agree:
  assumes "toggles_status L"
  shows "mail_reachable L tempMailList s \<Longrightarrow> mail \<in> set tempMailList \<Longrightarrow> agree_on L mail s"
proof (induction rule: mail_reachable.induct)
  case (mail_loaded st)
  then show ?case by (rule load_favorites_agree)
next
  case (mail_toggled s other)
  then show ?case by (simp add: toggle_keeps_agree [OF assms])
qed

lemma favorites_listed:
  "mail_reachable L tempMailList s \<Longrightarrow> favorites s \<subseteq> mail_id ` set tempMailList"
proof (induction rule: mail_reachable.induct)
  case (mail_loaded st)
  show ?case by (auto simp: load_favorites_def mail_init_def)
next
  case (mail_toggled s mail)
  then show ?case by (auto simp: favorites_toggle)
qed

lemma toggle_flips:
  assumes "toggles_status L" and "mail_reachable L tempMailList s" and "mail \<in> set tempMailList"
  shows "favorites (handleToggleFavorite L mail s) =
     (if mail_id mail \<in> favorites s then favorites s - {mail_id mail}
      else insert (mail_id mail) (favorites s))"
  using reachable_agree [OF assms] toggles_statusD(1) [OF assms(1), of mail "persisted s"]
  by (auto simp: agree_on_def favorites_toggle)

lemma reach_sym_diff:
  assumes L: "toggles_status L" and fin: "finite D"
  shows "D \<subseteq> mail_id ` set tempMailList \<Longrightarrow> mail_reachable L tempMailList s \<Longrightarrow>
     \<exists>s'. mail_reachable L tempMailList s'
       \<and> favorites s' = (favorites s - D) \<union> (D - favorites s)"
  using fin
proof (induction D rule: finite_induct)
  case empty
  then show ?case by auto
next
  case (insert x D)
  then obtain s' where r: "mail_reachable L tempMailList s'"
    and f: "favorites s' = (favorites s - D) \<union> (D - favorites s)"
    by auto
  from insert.prems(1) obtain mail where m: "mail \<in> set tempMailList" and x: "mail_id mail = x"
    by auto
  have r': "mail_reachable L tempMailList (handleToggleFavorite L mail s')"
    using r m by (rule mail_reachable.mail_toggled)
  have "favorites (handleToggleFavorite L mail s')
      = (favorites s - insert x D) \<union> (insert x D - favorites s)"
    unfolding toggle_flips [OF L r m] x f using insert.hyps(2) by auto
  with r' show ?case by blast
qed

lemma every_listed_set_reachable:
  assumes L: "toggles_status L" and S: "S \<subseteq> mail_id ` set tempMailList"
  shows "\<exists>s. mail_reachable L tempMailList s \<and> favorites s = S"
proof -
  obtain s0 where r0: "mail_reachable L tempMailList s0"
    using mail_reachable.mail_loaded [of L tempMailList] by blast
  let ?D = "(favorites s0 - S) \<union> (S - favorites s0)"
  have sub: "?D \<subseteq> mail_id ` set tempMailList"
    using favorites_listed [OF r0] S by auto
  then have fin: "finite ?D" by (rule finite_subset) simp
  from reach_sym_diff [OF L fin sub r0]
  obtain s where r: "mail_reachable L tempMailList s"
    and f: "favorites s = (favorites s0 - ?D) \<union> (?D - favorites s0)"
    by blast
  have "favorites s = S" unfolding f by auto
  with r show ?thesis by blast
qed

lemma storage_toggles_status: "toggles_status (storage_mailData True)"
  by (auto simp: toggles_status_def storage_mailData_def Let_def)

text \<open>
  When the storage writes fail the library does not keep its part: the persisted status of
  the entry stays, and the theorem below does not speak about such a page.
\<close>

lemma failing_storage_breaks_contract: "\<not> toggles_status (storage_mailData False)"
proof
  assume "toggles_status (storage_mailData False :: ('a, 'a list set) mailData)"
  from toggles_statusD(2) [OF this, of "\<lparr>mail_id = [], mail_name = [], description = None, url = []\<rparr>" "{}"]
  show False by (simp add: storage_mailData_def Let_def)
qed

text \<open>
  C4. Let the library toggle the persisted status of an entry and return the new status.
  In every state the page reaches from its load effect by toggles of listed entries, two
  toggles of a listed entry in succession return the \<open>favorites\<close> set to what it was and
  leave every persisted status as it was; and every set of listed ids is the \<open>favorites\<close>
  set of such a state.
\<close>

theorem toggle_twice_restores:
  assumes "toggles_status L"
  shows "(mail_reachable L tempMailList s \<and> mail \<in> set tempMailList \<longrightarrow>
        favorites (handleToggleFavorite L mail (handleToggleFavorite L mail s)) = favorites s
        \<and> (\<forall>i. isFavorite L i (persisted (handleToggleFavorite L mail (handleToggleFavorite L mail s)))
              = isFavorite L i (persisted s)))
    \<and> (S \<subseteq> mail_id ` set tempMailList \<longrightarrow>
        (\<exists>s0. mail_reachable L tempMailList s0 \<and> favorites s0 = S))"
proof (intro conjI impI allI)
  assume a: "mail_reachable L tempMailList s \<and> mail \<in> set tempMailList"
  then have "agree_on L mail s" using reachable_agree [OF assms] by blast
  then show "favorites (handleToggleFavorite L mail (handleToggleFavorite L mail s)) = favorites s"
    by (rule toggle_twice_agree [OF assms])
next
  fix i
  let ?st1 = "snd (toggleFavorite L mail (persisted s))"
  show "isFavorite L i (persisted (handleToggleFavorite L mail (handleToggleFavorite L mail s)))
      = isFavorite L i (persisted s)"
  proof (cases "i = mail_id mail")
    case True
    then show ?thesis
      using toggles_statusD(2) [OF assms, of mail ?st1]
        toggles_statusD(2) [OF assms, of mail "persisted s"]
      by (simp add: persisted_toggle)
  next
    case False
    then show ?thesis
      using toggles_statusD(3) [OF assms, of i mail ?st1]
        toggles_statusD(3) [OF assms, of i mail "persisted s"]
      by (simp add: persisted_toggle)
  qed
next
  assume "S \<subseteq> mail_id ` set tempMailList"
  then show "\<exists>s0. mail_reachable L tempMailList s0 \<and> favorites s0 = S"
    by (rule every_listed_set_reachable [OF assms])
qed

theorem toggle_twice_restores_witness:
  "toggles_status (storage_mailData True :: (char, string set) mailData)
   \<and> mail_reachable (storage_mailData True) [example_mail]
        (load_favorites (storage_mailData True) [example_mail] (mail_init {''a'', ''zz''}))
   \<and> favorites (load_favorites (storage_mailData True) [example_mail]
        (mail_init {''a'', ''zz''})) = {''a''}
   \<and> favorites (handleToggleFavorite (storage_mailData True) example_mail
        (load_favorites (storage_mailData True) [example_mail] (mail_init {''a'', ''zz''}))) = {}
   \<and> favorites (handleToggleFavorite (storage_mailData True) example_mail
        (handleToggleFavorite (storage_mailData True) example_mail
          (load_favorites (storage_mailData True) [example_mail] (mail_init {''a'', ''zz''}))))
      = {''a''}"
proof -
  let ?L = "storage_mailData True :: (char, string set) mailData"
  let ?s = "load_favorites ?L [example_mail] (mail_init {''a'', ''zz''})"
  have c: "toggles_status ?L" by (rule storage_toggles_status)
  have r: "mail_reachable ?L [example_mail] ?s" by (rule mail_reachable.mail_loaded)
  have m: "example_mail \<in> set [example_mail]" by simp
  have f: "favorites ?s = {''a''}"
    by (simp add: load_favorites_def mail_init_def storage_mailData_def example_mail_def)
  have g: "favorites (handleToggleFavorite ?L example_mail ?s) = {}"
    by (simp add: handleToggleFavorite_def storage_mailData_def load_favorites_def mail_init_def
        example_mail_def Let_def)
  from toggle_twice_restores [OF c, of "[example_mail]" ?s example_mail "{}"] c r m f g
  show ?thesis by simp
qed

end
